theory Spec2Isabelle
  imports Complex_Main
begin

section \<open>Numeric values, errors and decoded frames\<close>

text \<open>
  The plotting front end (\<^verbatim>\<open>src/frontend/plotter.py\<close>) works on numpy arrays of
  IEEE doubles. The model computes with exact reals: a sample is a real number or the
  missing value NaN. The two IEEE infinities are outside the model, and so is rounding,
  except in \<open>np.mod\<close>, where it decides the range of the result.
\<close>

datatype npfloat = Fin real | NaN

fun isnan :: "npfloat \<Rightarrow> bool" where
  "isnan NaN = True"
| "isnan (Fin _) = False"

text \<open>
  Python exceptions, by class. \<open>ValueError\<close> and \<open>KeyError\<close> carry the message
  (for \<open>KeyError\<close>: the missing label).
\<close>

datatype error = ValueError string | KeyError string | IndexError | ZeroDivisionError

text \<open>Sequencing: an exception ends the computation.\<close>

definition try_bind :: "error + 'a \<Rightarrow> ('a \<Rightarrow> error + 'b) \<Rightarrow> error + 'b" where
  "try_bind r f = (case r of Inl e \<Rightarrow> Inl e | Inr v \<Rightarrow> f v)"

text \<open>
  A decoded state-vector file: the \<open>time\<close> column and the other named columns in
  file order, as \<^verbatim>\<open>compressor.decode_to_dataframe_from_file\<close> returns it. The
  decoder itself is an external collaborator.
\<close>

record dataframe =
  time :: "real list"
  quantities :: "(string \<times> npfloat list) list"

definition df_columns :: "dataframe \<Rightarrow> string list" where
  "df_columns df = ''time'' # map fst (quantities df)"

text \<open>
  \<^verbatim>\<open>df[['time', quantity]]\<close>: pandas selects the listed columns and raises
  \<open>KeyError\<close> when a label is not a column of the frame.
\<close>

definition df_select :: "dataframe \<Rightarrow> string \<Rightarrow> error + dataframe" where
  "df_select df quantity =
     (if quantity = ''time'' then Inr \<lparr>time = time df, quantities = []\<rparr>
      else case map_of (quantities df) quantity of
             None \<Rightarrow> Inl (KeyError quantity)
           | Some col \<Rightarrow> Inr \<lparr>time = time df, quantities = [(quantity, col)]\<rparr>)"

text \<open>\<^verbatim>\<open>df[col]\<close> for a single label.\<close>

definition df_getitem :: "dataframe \<Rightarrow> string \<Rightarrow> error + npfloat list" where
  "df_getitem df col =
     (case map_of (quantities df) col of
        None \<Rightarrow> Inl (KeyError col)
      | Some c \<Rightarrow> Inr c)"

section \<open>numpy primitives used by the resampler\<close>

text \<open>
  \<^verbatim>\<open>np.linspace(start, stop, num)\<close> with the default \<open>endpoint=True\<close>:
  \<open>num\<close> samples \<open>start + i * step\<close> with \<open>step = (stop - start) / (num - 1)\<close>,
  the last one overwritten by \<open>stop\<close> when \<open>num > 1\<close>. A negative \<open>num\<close> is
  rejected.
\<close>

definition linspace_vals :: "real \<Rightarrow> real \<Rightarrow> nat \<Rightarrow> real list" where
  "linspace_vals start stop n =
     (if n \<le> 1 then replicate n start
      else map (\<lambda>i. start + real i * ((stop - start) / real (n - 1))) [0..<n - 1] @ [stop])"

definition np_linspace :: "real \<Rightarrow> real \<Rightarrow> int \<Rightarrow> error + real list" where
  "np_linspace start stop num =
     (if num < 0 then Inl (ValueError ''Number of samples must be non-negative.'')
      else Inr (linspace_vals start stop (nat num)))"

text \<open>
  The interpolation formula of \<^verbatim>\<open>np.interp\<close> between two neighbouring knots:
  \<open>slope * (x - x0) + y0\<close>. A NaN at either knot makes the result NaN.
\<close>

fun lerp :: "real \<Rightarrow> real \<times> npfloat \<Rightarrow> real \<times> npfloat \<Rightarrow> npfloat" where
  "lerp x (x0, Fin y0) (x1, Fin y1) = Fin ((y1 - y0) / (x1 - x0) * (x - x0) + y0)"
| "lerp x _ _ = NaN"

text \<open>
  The knot search of \<^verbatim>\<open>np.interp\<close> for \<open>x\<close> not below the first knot: the segment
  \<open>j\<close> with \<open>xp[j] \<le> x < xp[j+1]\<close>; on a knot the knot's value is returned as it is,
  and from the last knot on, the last value.
\<close>

fun interp_from :: "real \<Rightarrow> (real \<times> npfloat) list \<Rightarrow> npfloat" where
  "interp_from x [] = NaN"
| "interp_from x [(x0, y0)] = y0"
| "interp_from x ((x0, y0) # (x1, y1) # rest) =
     (if x < x1 then (if x = x0 then y0 else lerp x (x0, y0) (x1, y1))
      else interp_from x ((x1, y1) # rest))"

definition interp1 :: "real \<Rightarrow> (real \<times> npfloat) list \<Rightarrow> npfloat" where
  "interp1 x knots =
     (if x < fst (hd knots) then snd (hd knots) else interp_from x knots)"

text \<open>
  \<^verbatim>\<open>np.interp(x, xp, fp)\<close>: piecewise linear interpolation through the knots
  \<open>(xp, fp)\<close>, constant outside them. numpy expects \<open>xp\<close> increasing and does not
  check it; it rejects an empty \<open>xp\<close> and arrays of different lengths.
\<close>

definition np_interp :: "real list \<Rightarrow> real list \<Rightarrow> npfloat list \<Rightarrow> error + npfloat list" where
  "np_interp x xp fp =
     (if xp = [] then Inl (ValueError ''array of sample points is empty'')
      else if length fp \<noteq> length xp then Inl (ValueError ''fp and xp are not of the same length.'')
      else Inr (map (\<lambda>v. interp1 v (zip xp fp)) x))"

text \<open>
  Rounding of a real number to the nearest IEEE double (binary64, ties to even), for
  the normal range: with \<open>2\<^sup>e \<le> |x| < 2\<^sup>e\<^sup>+\<^sup>1\<close> the doubles near \<open>x\<close> are the
  multiples of \<open>2\<^sup>e\<^sup>-\<^sup>5\<^sup>2\<close>. Overflow and subnormal numbers are not modelled.
\<close>

definition pow2 :: "int \<Rightarrow> real" where
  "pow2 k = (if 0 \<le> k then 2 ^ nat k else 1 / 2 ^ nat (- k))"

definition round_half_even :: "real \<Rightarrow> int" where
  "round_half_even y =
     (let f = \<lfloor>y\<rfloor>
      in if y - of_int f < 1 / 2 then f
         else if 1 / 2 < y - of_int f then f + 1
         else if even f then f else f + 1)"

definition ulp_exponent :: "real \<Rightarrow> int" where
  "ulp_exponent x = \<lfloor>log 2 \<bar>x\<bar>\<rfloor>"

definition round_double :: "real \<Rightarrow> real" where
  "round_double x =
     (if x = 0 then 0
      else let u = pow2 (ulp_exponent x - 52)
           in u * of_int (round_half_even (x / u)))"

text \<open>C's \<open>fmod\<close>: the exact remainder \<open>a - b * trunc (a / b)\<close>, with the sign of \<open>a\<close>.\<close>

definition fmod :: "real \<Rightarrow> real \<Rightarrow> real" where
  "fmod a b =
     a - b * of_int (if 0 \<le> a / b then \<lfloor>a / b\<rfloor> else \<lceil>a / b\<rceil>)"

text \<open>
  \<^verbatim>\<open>np.mod(a, b)\<close> on doubles, as numpy computes it:
  \<^verbatim>\<open>
    mod = fmod(a, b)
    if mod != 0:
        if (b < 0) != (mod < 0): mod += b
    else:
        mod = copysign(0, b)
  \<close>
  \<open>fmod\<close> is exact; the addition \<open>mod += b\<close> is a floating-point addition and
  rounds its result. This is the one place where the model keeps the rounding of the
  program: it decides whether the reduced value can be \<open>b\<close> itself. A zero divisor
  gives NaN, and NaN stays NaN. The sign of a zero is not modelled.
\<close>

fun np_mod :: "npfloat \<Rightarrow> real \<Rightarrow> npfloat" where
  "np_mod (Fin a) b =
     (if b = 0 then NaN
      else let r = fmod a b
           in if r \<noteq> 0
              then (if (b < 0) \<noteq> (r < 0) then Fin (round_double (r + b)) else Fin r)
              else Fin 0)"
| "np_mod NaN b = NaN"

section \<open>Resampling one flight (\<open>plot_quantity\<close>, lines 145 to 152)\<close>

text \<open>\<^verbatim>\<open>df['time'].iloc[0]\<close> and \<^verbatim>\<open>.iloc[-1]\<close>: IndexError on an empty column.\<close>

definition iloc_first :: "'a list \<Rightarrow> error + 'a" where
  "iloc_first xs = (case xs of [] \<Rightarrow> Inl IndexError | x # _ \<Rightarrow> Inr x)"

definition iloc_last :: "'a list \<Rightarrow> error + 'a" where
  "iloc_last xs = (if xs = [] then Inl IndexError else Inr (last xs))"

definition circular :: "string \<Rightarrow> bool" where
  "circular quantity \<longleftrightarrow> quantity = ''lon'' \<or> quantity = ''heading''"

text \<open>
  The block shared by \<open>plot_quantity\<close>, \<open>plot_quantity_multi\<close> and
  \<open>plot_quantity_shaded\<close>:
  \<^verbatim>\<open>
    df = compressor.decode_to_dataframe_from_file(file)[['time', quantity]]
    if quantity not in df.columns:
        raise ValueError(f"Quantity {quantity} not found in state vector file.")
    df_interp = {'time': np.linspace(df['time'].iloc[0], df['time'].iloc[-1], num=M)}
    df_interp[quantity] = np.interp(df_interp['time'], df['time'], df[quantity])
    if quantity in ('lon', 'heading'):
        df_interp[quantity] = np.mod(df_interp[quantity], 360)
  \<close>
  \<open>decoded\<close> is the frame the decoder returned, \<open>num\<close> the option
  \<open>point-precision\<close>. The result is the pair of the resampled \<open>time\<close> and quantity
  columns. Selecting \<open>time\<close> as the quantity duplicates the time column, and numpy
  rejects the two-dimensional arrays that follow.
\<close>

definition resample :: "dataframe \<Rightarrow> string \<Rightarrow> int \<Rightarrow> error + (real list \<times> npfloat list)" where
  "resample decoded quantity num =
     try_bind (df_select decoded quantity) (\<lambda>df.
       if quantity \<notin> set (df_columns df)
       then Inl (ValueError (''Quantity '' @ quantity @ '' not found in state vector file.''))
       else
     try_bind (iloc_first (time df)) (\<lambda>t_first.
     try_bind (iloc_last (time df)) (\<lambda>t_last.
       if quantity = ''time'' then Inl (ValueError ''object too deep for desired array'')
       else
     try_bind (np_linspace t_first t_last num) (\<lambda>ts.
     try_bind (df_getitem df quantity) (\<lambda>col.
     try_bind (np_interp ts (time df) col) (\<lambda>vs.
       Inr (ts, if circular quantity then map (\<lambda>v. np_mod v 360) vs else vs)))))))"

text \<open>
  A Python loop or comprehension whose body may raise: the elements are processed in
  order and the first exception ends the loop.
\<close>

fun traverse :: "('a \<Rightarrow> error + 'b) \<Rightarrow> 'a list \<Rightarrow> error + 'b list" where
  "traverse f [] = Inr []"
| "traverse f (x # xs) =
     try_bind (f x) (\<lambda>y. try_bind (traverse f xs) (\<lambda>ys. Inr (y # ys)))"

section \<open>Resampling a route (\<open>plot_route\<close>, lines 370 to 378)\<close>

text \<open>
  \<^verbatim>\<open>
    df = compressor.decode_to_dataframe_from_file(state_vector_file)
    columns = ['lat', 'lon']
    df_interp = {'time': np.linspace(df['time'].iloc[0], df['time'].iloc[-1], num=M)}
    for col in columns:
        df_interp[col] = np.interp(df_interp['time'], df['time'], df[col])
    ys[0, :] = df_interp['lon']
    ys[1, :] = df_interp['lat']
  \<close>
  The same block fills \<open>ys[n, 0, :]\<close> and \<open>ys[n, 1, :]\<close> in
  \<open>plot_multiple_routes\<close> and \<open>plot_multiple_routes_shaded\<close>. The result is the
  pair \<open>(lon, lat)\<close>.
\<close>

definition resample_route :: "dataframe \<Rightarrow> int \<Rightarrow> error + (npfloat list \<times> npfloat list)" where
  "resample_route df num =
     try_bind (iloc_first (time df)) (\<lambda>t_first.
     try_bind (iloc_last (time df)) (\<lambda>t_last.
     try_bind (np_linspace t_first t_last num) (\<lambda>ts.
     try_bind (df_getitem df ''lat'') (\<lambda>lat_col.
     try_bind (np_interp ts (time df) lat_col) (\<lambda>lat.
     try_bind (df_getitem df ''lon'') (\<lambda>lon_col.
     try_bind (np_interp ts (time df) lon_col) (\<lambda>lon.
       Inr (lon, lat))))))))"

section \<open>Stacking and masking\<close>

text \<open>
  A stack is an array of shape \<open>(N, M)\<close>: a list of \<open>N\<close> rows, each with \<open>M\<close>
  entries. The number of columns is passed along with the rows, as the array carries its
  shape.
\<close>

type_synonym stack = "npfloat list list"

definition column :: "stack \<Rightarrow> nat \<Rightarrow> npfloat list" where
  "column ys k = map (\<lambda>row. row ! k) ys"

definition columns :: "nat \<Rightarrow> stack \<Rightarrow> npfloat list list" where
  "columns M ys = map (column ys) [0..<M]"

text \<open>
  The loop of \<open>plot_quantity_multi\<close> and \<open>plot_quantity_shaded\<close> (lines 196 to 208):
  each file is resampled, \<open>ys[i]\<close> receives the values and \<open>total_ts[i]\<close> the
  resampled duration \<^verbatim>\<open>df_interp['time'][-1] - df_interp['time'][0]\<close>.
\<close>

definition resample_row :: "dataframe \<Rightarrow> string \<Rightarrow> int \<Rightarrow> error + (npfloat list \<times> real)" where
  "resample_row decoded quantity num =
     try_bind (resample decoded quantity num) (\<lambda>(ts, vs).
     try_bind (iloc_last ts) (\<lambda>t_end.
     try_bind (iloc_first ts) (\<lambda>t_start.
       Inr (vs, t_end - t_start))))"

definition resample_stack :: "dataframe list \<Rightarrow> string \<Rightarrow> int \<Rightarrow> error + (stack \<times> real list)" where
  "resample_stack decoded_files quantity num =
     (if num < 0 then Inl (ValueError ''negative dimensions are not allowed'')
      else try_bind (traverse (\<lambda>d. resample_row d quantity num) decoded_files) (\<lambda>rows.
             Inr (map fst rows, map snd rows)))"

text \<open>
  \<^verbatim>\<open>mask = ~np.any(np.isnan(ys), axis=0)\<close> and \<^verbatim>\<open>ys = ys[:, mask]\<close>
  (lines 210 and 211, 295 and 296).
\<close>

definition column_mask :: "nat \<Rightarrow> stack \<Rightarrow> bool list" where
  "column_mask M ys = map (\<lambda>k. \<not> list_ex isnan (column ys k)) [0..<M]"

definition select_mask :: "bool list \<Rightarrow> 'a list \<Rightarrow> 'a list" where
  "select_mask keep xs = map fst (filter snd (zip xs keep))"

definition mask_columns :: "nat \<Rightarrow> stack \<Rightarrow> stack" where
  "mask_columns M ys = map (select_mask (column_mask M ys)) ys"

text \<open>
  The route stack has shape \<open>(N, 2, M)\<close>: one pair \<open>(lon, lat)\<close> of rows per flight.
  \<^verbatim>\<open>mask = ~np.any(np.isnan(ys), axis=(1, 2))\<close> and \<^verbatim>\<open>ys = ys[mask]\<close>
  (lines 435 and 436, 535 and 536) index the first axis, the flights.
\<close>

type_synonym route_stack = "(npfloat list \<times> npfloat list) list"

definition route_mask :: "route_stack \<Rightarrow> bool list" where
  "route_mask ys = map (\<lambda>(lon, lat). \<not> (list_ex isnan lon \<or> list_ex isnan lat)) ys"

definition mask_routes :: "route_stack \<Rightarrow> route_stack" where
  "mask_routes ys = select_mask (route_mask ys) ys"

section \<open>Statistics along the flight axis\<close>

text \<open>
  numpy's reductions return NaN on a column that holds a NaN, and (with a warning) on an
  empty column.
\<close>

fun reals_of :: "npfloat list \<Rightarrow> real list option" where
  "reals_of [] = Some []"
| "reals_of (NaN # xs) = None"
| "reals_of (Fin r # xs) = map_option ((#) r) (reals_of xs)"

definition np_reduce :: "(real list \<Rightarrow> real) \<Rightarrow> npfloat list \<Rightarrow> npfloat" where
  "np_reduce f xs =
     (case reals_of xs of
        None \<Rightarrow> NaN
      | Some rs \<Rightarrow> if rs = [] then NaN else Fin (f rs))"

definition mean_real :: "real list \<Rightarrow> real" where
  "mean_real rs = sum_list rs / real (length rs)"

definition median_real :: "real list \<Rightarrow> real" where
  "median_real rs =
     (let s = sort rs; n = length s
      in if odd n then s ! (n div 2) else (s ! (n div 2 - 1) + s ! (n div 2)) / 2)"

text \<open>\<^verbatim>\<open>np.std\<close> with the default \<open>ddof=0\<close>: \<open>sqrt(mean(abs(x - x.mean())**2))\<close>.\<close>

definition std_real :: "real list \<Rightarrow> real" where
  "std_real rs = sqrt (mean_real (map (\<lambda>x. \<bar>x - mean_real rs\<bar>\<^sup>2) rs))"

text \<open>
  \<^verbatim>\<open>np.percentile\<close> with the default linear method: on the sorted column, the value
  at the virtual index \<open>q / 100 * (n - 1)\<close>, interpolated between its two neighbours.
\<close>

definition percentile_real :: "real \<Rightarrow> real list \<Rightarrow> real" where
  "percentile_real q rs =
     (let s = sort rs; n = length s;
          v = q / 100 * real (n - 1);
          lo = nat \<lfloor>v\<rfloor>;
          hi = min (lo + 1) (n - 1)
      in s ! lo + (s ! hi - s ! lo) * (v - real lo))"

definition np_mean :: "npfloat list \<Rightarrow> npfloat" where
  "np_mean = np_reduce mean_real"

definition np_median :: "npfloat list \<Rightarrow> npfloat" where
  "np_median = np_reduce median_real"

definition np_std :: "npfloat list \<Rightarrow> npfloat" where
  "np_std = np_reduce std_real"

text \<open>
  \<^verbatim>\<open>np.average(a, weights=None)\<close>: without weights it is \<open>a.mean()\<close>; with weights
  \<open>sum(a * w) / sum(w)\<close>, after checking the length of the weights and that they do
  not sum to zero.
\<close>

definition np_average :: "npfloat list \<Rightarrow> real list option \<Rightarrow> error + npfloat" where
  "np_average xs weights =
     (case weights of
        None \<Rightarrow> Inr (np_mean xs)
      | Some w \<Rightarrow>
          if length w \<noteq> length xs
          then Inl (ValueError ''Length of weights not compatible with specified axis.'')
          else if sum_list w = 0 then Inl ZeroDivisionError
          else Inr (case reals_of xs of
                      None \<Rightarrow> NaN
                    | Some rs \<Rightarrow> Fin (sum_list (map2 (*) rs w) / sum_list w)))"

text \<open>
  \<^verbatim>\<open>np.percentile(ys, q, axis=0)\<close>: \<open>q\<close> is checked first; on a stack without
  flights numpy then fails with IndexError when it indexes the empty axis; otherwise
  every column is reduced.
\<close>

definition np_percentile :: "nat \<Rightarrow> stack \<Rightarrow> real \<Rightarrow> error + npfloat list" where
  "np_percentile M ys q =
     (if \<not> (0 \<le> q \<and> q \<le> 100)
      then Inl (ValueError ''Percentiles must be in the range [0, 100]'')
      else if ys = [] then Inl IndexError
      else Inr (map (np_reduce (percentile_real q)) (columns M ys)))"

fun np_scale :: "real \<Rightarrow> npfloat \<Rightarrow> npfloat" where
  "np_scale c (Fin v) = Fin (c * v)"
| "np_scale c NaN = NaN"

fun np_sub :: "npfloat \<Rightarrow> npfloat \<Rightarrow> npfloat" where
  "np_sub (Fin a) (Fin b) = Fin (a - b)"
| "np_sub _ _ = NaN"

fun np_half :: "npfloat \<Rightarrow> npfloat" where
  "np_half (Fin v) = Fin (v / 2)"
| "np_half NaN = NaN"

section \<open>Aggregation (\<open>plot_quantity_shaded\<close>, lines 298 to 321)\<close>

text \<open>
  The expectation branch: the legend name, the expectation path and the end of the time
  axis \<open>t_final\<close>, selected by the option \<open>expectation-measure\<close>.
\<close>

definition expectation_measure ::
  "string \<Rightarrow> nat \<Rightarrow> stack \<Rightarrow> real list \<Rightarrow> error + (string \<times> npfloat list \<times> npfloat)" where
  "expectation_measure selector M ys total_ts =
     (if selector = ''mean''
      then Inr (''Mean Path'', map np_mean (columns M ys), np_mean (map Fin total_ts))
      else if selector = ''median''
      then Inr (''Median Path'', map np_median (columns M ys), np_median (map Fin total_ts))
      else if selector = ''average''
      then try_bind (traverse (\<lambda>c. np_average c None) (columns M ys)) (\<lambda>expectation.
           try_bind (np_average (map Fin total_ts) None) (\<lambda>t_final.
             Inr (''Average Path'', expectation, t_final)))
      else Inl (ValueError (''Expectation Measure not recognized: '' @ selector)))"

text \<open>
  The deviation branch: \<^verbatim>\<open>sigmas = sorted(deviation_values)[::-1]\<close>, then one row of
  deviations per level, selected by the option \<open>deviation-measure\<close>. The legend names
  of the levels are presentation and not modelled.
\<close>

definition pct_sigma :: "nat \<Rightarrow> stack \<Rightarrow> real \<Rightarrow> error + npfloat list" where
  "pct_sigma M ys sig =
     try_bind (np_percentile M ys (50 + sig / 2)) (\<lambda>upper.
     try_bind (np_percentile M ys (50 - sig / 2)) (\<lambda>lower.
       Inr (map2 (\<lambda>u l. np_half (np_sub u l)) upper lower)))"

definition deviation_measure ::
  "string \<Rightarrow> real list \<Rightarrow> nat \<Rightarrow> stack \<Rightarrow> error + npfloat list list" where
  "deviation_measure selector deviation_values M ys =
     (let sigmas = rev (sort deviation_values)
      in if selector = ''std''
         then Inr (map (\<lambda>sig. map (np_scale sig) (map np_std (columns M ys))) sigmas)
         else if selector = ''pct''
         then traverse (pct_sigma M ys) sigmas
         else Inl (ValueError (''Deviation Measure not recognized: '' @ selector)))"

definition aggregate ::
  "string \<Rightarrow> string \<Rightarrow> real list \<Rightarrow> nat \<Rightarrow> stack \<Rightarrow> real list
     \<Rightarrow> error + (npfloat list \<times> npfloat \<times> npfloat list list)" where
  "aggregate expectation_m deviation_m deviation_values M ys total_ts =
     try_bind (expectation_measure expectation_m M ys total_ts) (\<lambda>(name, expectation, t_final).
     try_bind (deviation_measure deviation_m deviation_values M ys) (\<lambda>sigma.
       Inr (expectation, t_final, sigma)))"

text \<open>
  The route plots reduce the stack of shape \<open>(N, 2, M)\<close> along the flights
  (\<open>plot_multiple_routes\<close>, lines 438 to 448): one expectation row for \<open>lon\<close> and one
  for \<open>lat\<close>; \<open>plot_multiple_routes_shaded\<close> (lines 552 to 561) computes the
  deviations of \<open>ys[:, 0, :]\<close> and \<open>ys[:, 1, :]\<close> in the same way.
\<close>

definition route_expectation ::
  "string \<Rightarrow> nat \<Rightarrow> route_stack \<Rightarrow> error + (string \<times> npfloat list \<times> npfloat list)" where
  "route_expectation selector M ys =
     (if selector = ''mean''
      then Inr (''Mean Path'', map np_mean (columns M (map fst ys)),
                map np_mean (columns M (map snd ys)))
      else if selector = ''median''
      then Inr (''Median Path'', map np_median (columns M (map fst ys)),
                map np_median (columns M (map snd ys)))
      else if selector = ''average''
      then try_bind (traverse (\<lambda>c. np_average c None) (columns M (map fst ys))) (\<lambda>exp_lon.
           try_bind (traverse (\<lambda>c. np_average c None) (columns M (map snd ys))) (\<lambda>exp_lat.
             Inr (''Average Path'', exp_lon, exp_lat)))
      else Inl (ValueError (''Expectation Measure not recognized: '' @ selector)))"

definition route_deviation ::
  "string \<Rightarrow> real list \<Rightarrow> nat \<Rightarrow> route_stack
     \<Rightarrow> error + (npfloat list list \<times> npfloat list list)" where
  "route_deviation selector deviation_values M ys =
     (let sigmas = rev (sort deviation_values)
      in if selector = ''std''
         then Inr (map (\<lambda>sig. map (np_scale sig) (map np_std (columns M (map fst ys)))) sigmas,
                   map (\<lambda>sig. map (np_scale sig) (map np_std (columns M (map snd ys)))) sigmas)
         else if selector = ''pct''
         then try_bind (traverse (pct_sigma M (map fst ys)) sigmas) (\<lambda>sigma_lon.
              try_bind (traverse (pct_sigma M (map snd ys)) sigmas) (\<lambda>sigma_lat.
                Inr (sigma_lon, sigma_lat)))
         else Inl (ValueError (''Deviation Measure not recognized: '' @ selector)))"

section \<open>Density weights (\<open>plot_quantity_multi\<close>, lines 215 to 221)\<close>

text \<open>\<^verbatim>\<open>np.max\<close> and \<^verbatim>\<open>np.min\<close> reject an empty array.\<close>

fun np_max :: "real list \<Rightarrow> error + real" where
  "np_max [] = Inl (ValueError ''zero-size array to reduction operation maximum which has no identity'')"
| "np_max (x # xs) = Inr (fold max xs x)"

fun np_min :: "real list \<Rightarrow> error + real" where
  "np_min [] = Inl (ValueError ''zero-size array to reduction operation minimum which has no identity'')"
| "np_min (x # xs) = Inr (fold min xs x)"

text \<open>
  Division of two numbers as numpy does it on arrays: no exception on a zero divisor.
  \<open>0 / 0\<close> is NaN. A nonzero number over zero would be an infinity; where \<open>np_div\<close>
  is used below the numerator is \<open>0\<close> whenever the divisor is.
\<close>

definition np_div :: "real \<Rightarrow> real \<Rightarrow> npfloat" where
  "np_div a b = (if b = 0 then NaN else Fin (a / b))"

text \<open>
  \<^verbatim>\<open>
    kde_max = np.max(kde_values)
    kde_min = np.min(kde_values)
    colors_value = (kde_values - kde_min) / (kde_max - kde_min)
  \<close>
\<close>

definition colors_value :: "real list \<Rightarrow> error + npfloat list" where
  "colors_value kde_values =
     try_bind (np_max kde_values) (\<lambda>kde_max.
     try_bind (np_min kde_values) (\<lambda>kde_min.
       Inr (map (\<lambda>d. np_div (d - kde_min) (kde_max - kde_min)) kde_values)))"

text \<open>
  \<^verbatim>\<open>kde = gaussian_kde(data); kde_values = kde(data)\<close>: the estimator is fitted to the
  pooled cloud and evaluated at each of its points. scipy's estimator is a parameter:
  \<open>kde data p\<close> is the density at \<open>p\<close> of the estimate fitted to \<open>data\<close>. The
  estimator's own failures (it rejects a cloud whose covariance is singular) are outside
  the model.
\<close>

definition density_weights ::
  "((real \<times> real) list \<Rightarrow> real \<times> real \<Rightarrow> real) \<Rightarrow> (real \<times> real) list \<Rightarrow> error + npfloat list" where
  "density_weights kde data = colors_value (map (kde data) data)"

text \<open>
  \<open>plot_multiple_routes\<close> (lines 449 to 455) takes the extremes over the pooled cloud
  and normalises flight by flight:
  \<^verbatim>\<open>
    kde_max = np.max(kde(pooled)); kde_min = np.min(kde(pooled))
    colors_value = [(kde(ys[i]) - kde_min) / (kde_max - kde_min) for i in range(N)]
  \<close>
  Here a flight is the list of its \<open>(lon, lat)\<close> points.
\<close>

definition route_density_weights ::
  "((real \<times> real) list \<Rightarrow> real \<times> real \<Rightarrow> real) \<Rightarrow> (real \<times> real) list list
     \<Rightarrow> error + npfloat list list" where
  "route_density_weights kde flights =
     (let pooled = concat flights
      in try_bind (np_max (map (kde pooled) pooled)) (\<lambda>kde_max.
         try_bind (np_min (map (kde pooled) pooled)) (\<lambda>kde_min.
           Inr (map (map (\<lambda>p. np_div (kde pooled p - kde_min) (kde_max - kde_min))) flights))))"

section \<open>Confidence regions (\<open>generate_confidence_region\<close>, lines 476 to 495)\<close>

text \<open>
  The shapely geometries the function builds, and the set of points each one denotes.
  \<open>Point(c).buffer(r)\<close> denotes the disk of radius \<open>r\<close> around \<open>c\<close> (shapely
  approximates its boundary by a polygon; the approximation is not modelled),
  \<open>scale(g, xfact, yfact, origin)\<close> stretches \<open>g\<close> by the two factors away from
  \<open>origin\<close>, and \<open>unary_union\<close> is the union of its arguments.
\<close>

type_synonym point = "real \<times> real"

datatype geometry =
    Buffer point real
  | Scale geometry real real point
  | UnaryUnion "geometry list"

fun scale_point :: "real \<Rightarrow> real \<Rightarrow> point \<Rightarrow> point \<Rightarrow> point" where
  "scale_point xfact yfact (ox, oy) (x, y) = (ox + xfact * (x - ox), oy + yfact * (y - oy))"

fun points_of :: "geometry \<Rightarrow> point set" where
  "points_of (Buffer (cx, cy) r) = {(x, y). 0 \<le> r \<and> (x - cx)\<^sup>2 + (y - cy)\<^sup>2 \<le> r\<^sup>2}"
| "points_of (Scale g xfact yfact origin) = scale_point xfact yfact origin ` points_of g"
| "points_of (UnaryUnion gs) = \<Union> (set (map points_of gs))"

text \<open>Indexing a numpy array: IndexError outside its bounds.\<close>

definition np_getitem :: "'a list \<Rightarrow> nat \<Rightarrow> error + 'a" where
  "np_getitem xs i = (if i < length xs then Inr (xs ! i) else Inl IndexError)"

text \<open>
  \<^verbatim>\<open>
    ellipses = []
    for i in range(means_x.shape[0]):
        circle = Point(means_x[i], means_y[i]).buffer(1)
        ellipse = scale(circle, xfact=sigma_x[i], yfact=sigma_y[i],
                        origin=(means_x[i], means_y[i]))
        ellipses.append(ellipse)
    union_ellipse = unary_union(ellipses)
    return union_ellipse
  \<close>
\<close>

definition ellipse_at ::
  "real list \<Rightarrow> real list \<Rightarrow> real list \<Rightarrow> real list \<Rightarrow> nat \<Rightarrow> error + geometry" where
  "ellipse_at means_x means_y sigma_x sigma_y i =
     try_bind (np_getitem means_x i) (\<lambda>mx.
     try_bind (np_getitem means_y i) (\<lambda>my.
     try_bind (np_getitem sigma_x i) (\<lambda>sx.
     try_bind (np_getitem sigma_y i) (\<lambda>sy.
       Inr (Scale (Buffer (mx, my) 1) sx sy (mx, my))))))"

definition generate_confidence_region ::
  "real list \<Rightarrow> real list \<Rightarrow> real list \<Rightarrow> real list \<Rightarrow> error + geometry" where
  "generate_confidence_region means_x means_y sigma_x sigma_y =
     try_bind (traverse (ellipse_at means_x means_y sigma_x sigma_y) [0..<length means_x])
       (\<lambda>ellipses. Inr (UnaryUnion ellipses))"


section \<open>Basic facts\<close>

lemma try_bind_Inr [simp]: "try_bind (Inr v) f = f v"
  by (simp add: try_bind_def)

lemma try_bind_Inl [simp]: "try_bind (Inl e) f = Inl e"
  by (simp add: try_bind_def)

lemma traverse_total:
  "(\<And>x. x \<in> set xs \<Longrightarrow> f x = Inr (g x)) \<Longrightarrow> traverse f xs = Inr (map g xs)"
  by (induction xs) simp_all

lemma traverse_Inr: "traverse (\<lambda>c. Inr (g c)) cs = Inr (map g cs)"
  by (rule traverse_total) simp

lemma np_average_None: "np_average c None = Inr (np_mean c)"
  by (simp add: np_average_def)

section \<open>The missing-quantity guard\<close>

lemma df_select_columns:
  "df_select decoded quantity = Inr df \<Longrightarrow> quantity \<in> set (df_columns df)"
  by (auto simp: df_select_def df_columns_def split: if_splits option.splits)

text \<open>The guard of lines 146 and 147 is unreachable: its message is never the result.\<close>

lemma resample_guard_dead:
  "resample decoded quantity num
     \<noteq> Inl (ValueError (''Quantity '' @ quantity @ '' not found in state vector file.''))"
proof (cases "df_select decoded quantity")
  case (Inl e)
  then have "\<exists>q. e = KeyError q"
    by (auto simp: df_select_def split: if_splits option.splits)
  with Inl show ?thesis by (auto simp: resample_def)
next
  case (Inr df)
  then have col: "quantity \<in> set (df_columns df)" by (rule df_select_columns)
  show ?thesis
    using Inr col
    by (auto simp: resample_def try_bind_def iloc_first_def iloc_last_def np_linspace_def
          df_getitem_def np_interp_def split: sum.splits list.splits if_splits option.splits)
qed

text \<open>
  C4. A quantity that is not a column of the decoded frame: the claim says the operation
  fails with a ValueError naming the quantity. The guard that raises it comes after the
  column selection \<^verbatim>\<open>[['time', quantity]]\<close>, which has already raised KeyError; after
  a successful selection the quantity is always a column, so the guard never fires. The
  theorem evaluates the code on a frame with the columns \<open>time\<close> and \<open>lat\<close> and the
  quantity \<open>velocity\<close>.
\<close>

theorem C4_missing_quantity_raises_KeyError:
  "resample \<lparr>time = [0, 10], quantities = [(''lat'', [Fin 30, Fin 31])]\<rparr> ''velocity'' 5
     = Inl (KeyError ''velocity'')"
  by (simp add: resample_def df_select_def)

section \<open>Measure selection\<close>

lemma traverse_pct_not_unsupported:
  "traverse (pct_sigma M ys) sigmas \<noteq> Inl (ValueError (CHR ''E'' # s))"
  "traverse (pct_sigma M ys) sigmas \<noteq> Inl (ValueError (CHR ''D'' # s))"
  by (induction sigmas)
     (auto simp: pct_sigma_def np_percentile_def try_bind_def split: sum.splits if_splits)

text \<open>
  C8. Aggregation over an aligned stack raises the ValueError "Expectation Measure not
  recognized" exactly when the expectation selector is none of mean, median, average;
  with a recognised expectation selector it raises the ValueError "Deviation Measure not
  recognized" exactly when the deviation selector is none of std, pct; with both
  selectors recognised it raises neither of the two.
\<close>

theorem C8_unsupported_measure:
  "(e \<notin> {''mean'', ''median'', ''average''} \<longrightarrow>
      aggregate e d lv M ys tts = Inl (ValueError (''Expectation Measure not recognized: '' @ e)))
   \<and> (e \<in> {''mean'', ''median'', ''average''} \<and> d \<notin> {''std'', ''pct''} \<longrightarrow>
      aggregate e d lv M ys tts = Inl (ValueError (''Deviation Measure not recognized: '' @ d)))
   \<and> (e \<in> {''mean'', ''median'', ''average''} \<and> d \<in> {''std'', ''pct''} \<longrightarrow>
      (\<forall>s. aggregate e d lv M ys tts \<noteq> Inl (ValueError (''Expectation Measure not recognized: '' @ s))
         \<and> aggregate e d lv M ys tts \<noteq> Inl (ValueError (''Deviation Measure not recognized: '' @ s))))"
proof (intro conjI impI)
  assume "e \<notin> {''mean'', ''median'', ''average''}"
  then show "aggregate e d lv M ys tts = Inl (ValueError (''Expectation Measure not recognized: '' @ e))"
    by (simp add: aggregate_def expectation_measure_def)
next
  assume "e \<in> {''mean'', ''median'', ''average''} \<and> d \<notin> {''std'', ''pct''}"
  then show "aggregate e d lv M ys tts = Inl (ValueError (''Deviation Measure not recognized: '' @ d))"
    by (auto simp: aggregate_def expectation_measure_def deviation_measure_def traverse_Inr
          np_average_None)
next
  assume a: "e \<in> {''mean'', ''median'', ''average''} \<and> d \<in> {''std'', ''pct''}"
  have dev: "\<And>s. deviation_measure d lv M ys \<noteq> Inl (ValueError (CHR ''E'' # s))"
            "\<And>s. deviation_measure d lv M ys \<noteq> Inl (ValueError (CHR ''D'' # s))"
    using a traverse_pct_not_unsupported by (auto simp: deviation_measure_def)
  obtain r where r: "expectation_measure e M ys tts = Inr r"
    using a by (auto simp: expectation_measure_def traverse_Inr np_average_None)
  show "\<forall>s. aggregate e d lv M ys tts \<noteq> Inl (ValueError (''Expectation Measure not recognized: '' @ s))
         \<and> aggregate e d lv M ys tts \<noteq> Inl (ValueError (''Deviation Measure not recognized: '' @ s))"
    using dev r by (cases r) (auto simp: aggregate_def try_bind_def split: sum.splits)
qed

theorem C8_unsupported_measure_witness:
  "aggregate ''mode'' ''std'' [1] 1 [[Fin 1]] [10]
     = Inl (ValueError ''Expectation Measure not recognized: mode'')
   \<and> aggregate ''mean'' ''iqr'' [1] 1 [[Fin 1]] [10]
     = Inl (ValueError ''Deviation Measure not recognized: iqr'')
   \<and> aggregate ''median'' ''pct'' [300] 1 [[Fin 1]] [10]
     \<noteq> Inl (ValueError ''Deviation Measure not recognized: pct'')"
  using C8_unsupported_measure [of "''mode''" "''std''" "[1]" 1 "[[Fin 1]]" "[10]"]
        C8_unsupported_measure [of "''mean''" "''iqr''" "[1]" 1 "[[Fin 1]]" "[10]"]
        C8_unsupported_measure [of "''median''" "''pct''" "[300]" 1 "[[Fin 1]]" "[10]"]
  by simp

text \<open>
  C10. The selectors mean and average give the same aggregation result (expectation
  path, end of the time axis and deviations): \<open>np.average\<close> is called without weights
  and is then the mean. Only the legend name differs. The same holds for the expectation
  of the route stack.
\<close>

theorem C10_average_is_mean:
  "aggregate ''average'' d lv M ys tts = aggregate ''mean'' d lv M ys tts
   \<and> map_sum id snd (expectation_measure ''average'' M ys tts)
       = map_sum id snd (expectation_measure ''mean'' M ys tts)
   \<and> map_sum id snd (route_expectation ''average'' M rs)
       = map_sum id snd (route_expectation ''mean'' M rs)"
  by (simp add: aggregate_def expectation_measure_def route_expectation_def traverse_Inr
        np_average_None)

section \<open>Masking\<close>

lemma select_mask_Nil [simp]: "select_mask keep [] = []" "select_mask [] xs = []"
  by (simp_all add: select_mask_def)

lemma select_mask_Cons [simp]:
  "select_mask (b # keep) (x # xs) = (if b then [x] else []) @ select_mask keep xs"
  by (simp add: select_mask_def)

lemma select_mask_nths:
  "select_mask keep xs = nths xs {k. k < length keep \<and> keep ! k}"
proof (induction xs arbitrary: keep)
  case Nil
  show ?case by simp
next
  case (Cons x xs)
  show ?case
  proof (cases keep)
    case Nil
    then show ?thesis by simp
  next
    case (Cons b bs)
    then show ?thesis using Cons.IH [of bs] by (simp add: nths_Cons)
  qed
qed

lemma nths_cong_length:
  "(\<And>k. k < length xs \<Longrightarrow> k \<in> A \<longleftrightarrow> k \<in> B) \<Longrightarrow> nths xs A = nths xs B"
  unfolding nths_def
  by (rule arg_cong [where f = "map fst"], rule filter_cong) (auto simp: in_set_zip)

lemma column_mask_nth:
  "k < M \<Longrightarrow> column_mask M ys ! k \<longleftrightarrow> (\<forall>r\<in>set ys. \<not> isnan (r ! k))"
  by (auto simp: column_mask_def column_def list_ex_iff)

lemma length_column_mask [simp]: "length (column_mask M ys) = M"
  by (simp add: column_mask_def)

lemma mask_columns_nths:
  assumes "\<forall>row\<in>set ys. length row = M"
  shows "mask_columns M ys = map (\<lambda>row. nths row {k. \<forall>r\<in>set ys. \<not> isnan (r ! k)}) ys"
  unfolding mask_columns_def
proof (rule map_cong [OF refl])
  fix row assume "row \<in> set ys"
  then have len: "length row = M" using assms by simp
  have "select_mask (column_mask M ys) row
          = nths row {k. k < length (column_mask M ys) \<and> column_mask M ys ! k}"
    by (rule select_mask_nths)
  also have "\<dots> = nths row {k. \<forall>r\<in>set ys. \<not> isnan (r ! k)}"
    by (rule nths_cong_length) (simp add: len column_mask_nth cong: conj_cong)
  finally show "select_mask (column_mask M ys) row = nths row {k. \<forall>r\<in>set ys. \<not> isnan (r ! k)}" .
qed

lemma select_mask_filter: "select_mask (map P xs) xs = filter P xs"
  by (induction xs) simp_all

lemma mask_routes_filter:
  "mask_routes rs = filter (\<lambda>(lon, lat). \<forall>v\<in>set lon \<union> set lat. \<not> isnan v) rs"
proof -
  have "route_mask rs = map (\<lambda>(lon, lat). \<forall>v\<in>set lon \<union> set lat. \<not> isnan v) rs"
    by (auto simp: route_mask_def list_ex_iff)
  then show ?thesis by (simp add: mask_routes_def select_mask_filter)
qed

text \<open>
  C2, as the code has it. In the quantity stack of shape \<open>(N, M)\<close>
  (\<open>plot_quantity_multi\<close>, \<open>plot_quantity_shaded\<close>) every row keeps exactly the
  columns in which no row holds NaN, so a column with a NaN in any flight is dropped for
  all flights and no NaN is left. In the route stack of shape \<open>(N, 2, M)\<close>
  (\<open>plot_multiple_routes\<close>, \<open>plot_multiple_routes_shaded\<close>) the mask runs over the
  flights: a flight with a NaN anywhere in its \<open>lon\<close> or \<open>lat\<close> row is dropped as a
  whole, and the other flights are kept with all their columns.
\<close>

theorem C2_masking:
  assumes "\<forall>row\<in>set ys. length row = M"
  shows "mask_columns M ys = map (\<lambda>row. nths row {k. \<forall>r\<in>set ys. \<not> isnan (r ! k)}) ys
       \<and> (\<forall>row\<in>set (mask_columns M ys). \<forall>v\<in>set row. \<not> isnan v)
       \<and> mask_routes rs = filter (\<lambda>(lon, lat). \<forall>v\<in>set lon \<union> set lat. \<not> isnan v) rs"
proof (intro conjI)
  show eq: "mask_columns M ys = map (\<lambda>row. nths row {k. \<forall>r\<in>set ys. \<not> isnan (r ! k)}) ys"
    using assms by (rule mask_columns_nths)
  show "\<forall>row\<in>set (mask_columns M ys). \<forall>v\<in>set row. \<not> isnan v"
    unfolding eq by (auto simp: set_nths)
  show "mask_routes rs = filter (\<lambda>(lon, lat). \<forall>v\<in>set lon \<union> set lat. \<not> isnan v) rs"
    by (rule mask_routes_filter)
qed

theorem C2_masking_witness:
  "mask_columns 3 [[Fin 1, NaN, Fin 3], [Fin 3, Fin 4, Fin 5]]
     = map (\<lambda>row. nths row {k. \<forall>r\<in>set [[Fin 1, NaN, Fin 3], [Fin 3, Fin 4, Fin 5]]. \<not> isnan (r ! k)})
         [[Fin 1, NaN, Fin 3], [Fin 3, Fin 4, Fin 5]]
   \<and> mask_columns 3 [[Fin 1, NaN, Fin 3], [Fin 3, Fin 4, Fin 5]] = [[Fin 1, Fin 3], [Fin 3, Fin 5]]"
proof -
  have h: "\<forall>row\<in>set [[Fin 1, NaN, Fin 3], [Fin 3, Fin 4, Fin 5]]. length row = 3" by simp
  have v: "mask_columns 3 [[Fin 1, NaN, Fin 3], [Fin 3, Fin 4, Fin 5]] = [[Fin 1, Fin 3], [Fin 3, Fin 5]]"
    by (simp add: mask_columns_def column_mask_def column_def upt_rec)
  from C2_masking [OF h, of "[]", THEN conjunct1] v show ?thesis by (rule conjI)
qed

text \<open>
  The claim fails on the route stack: the first flight has a NaN in column 0 of its
  \<open>lon\<close> row; the flight is dropped and the second flight keeps column 0.
\<close>

theorem C2_masking_counterexample:
  "mask_routes [([NaN, Fin 2], [Fin 1, Fin 1]), ([Fin 3, Fin 4], [Fin 5, Fin 6])]
     = [([Fin 3, Fin 4], [Fin 5, Fin 6])]"
  by (simp add: mask_routes_def route_mask_def)

section \<open>Density normalisation\<close>

lemma np_max_Max: "kv \<noteq> [] \<Longrightarrow> np_max kv = Inr (Max (set kv))"
proof (cases kv)
  case (Cons a l)
  have "fold max l a = Max (set (a # l))" by (rule Max.set_eq_fold [symmetric])
  then show ?thesis using Cons by simp
qed simp

lemma np_min_Min: "kv \<noteq> [] \<Longrightarrow> np_min kv = Inr (Min (set kv))"
proof (cases kv)
  case (Cons a l)
  have "fold min l a = Min (set (a # l))" by (rule Min.set_eq_fold [symmetric])
  then show ?thesis using Cons by simp
qed simp

lemma normalised_unit_interval:
  fixes d :: real
  assumes "lo \<le> d" "d \<le> hi" "lo \<noteq> hi"
  shows "np_div (d - lo) (hi - lo) = Fin ((d - lo) / (hi - lo))"
    and "0 \<le> (d - lo) / (hi - lo)" and "(d - lo) / (hi - lo) \<le> 1"
  using assms by (simp_all add: np_div_def)

lemma colors_value_range:
  assumes "kv \<noteq> []" "Min (set kv) \<noteq> Max (set kv)"
  shows "colors_value kv = Inr (map (\<lambda>d. Fin ((d - Min (set kv)) / (Max (set kv) - Min (set kv)))) kv)"
proof -
  have "np_div (d - Min (set kv)) (Max (set kv) - Min (set kv))
          = Fin ((d - Min (set kv)) / (Max (set kv) - Min (set kv)))" if "d \<in> set kv" for d
    using that assms(2) by (intro normalised_unit_interval) simp_all
  then show ?thesis
    using assms(1) by (simp add: colors_value_def np_max_Max np_min_Min)
qed

text \<open>
  With a zero range every numerator is zero as well, so the quotient is \<open>0 / 0\<close> at
  every point of the cloud.
\<close>

lemma zero_range_numerator:
  fixes kv :: "real list"
  assumes "Min (set kv) = Max (set kv)" "d \<in> set kv"
  shows "d - Min (set kv) = 0"
proof -
  have "Min (set kv) \<le> d" "d \<le> Max (set kv)" using assms(2) by simp_all
  then show ?thesis using assms(1) by simp
qed

lemma colors_value_zero_range:
  assumes "kv \<noteq> []" "Min (set kv) = Max (set kv)"
  shows "colors_value kv = Inr (map (\<lambda>d. NaN) kv)"
  using assms by (simp add: colors_value_def np_max_Max np_min_Min np_div_def)

text \<open>
  C1, as the code has it. When the densities of the pooled cloud are not all equal
  (\<open>d_max \<noteq> d_min\<close>), the weight of every point is
  \<open>(d - d_min) / (d_max - d_min)\<close> and lies in \<open>[0, 1]\<close>, both in
  \<open>plot_quantity_multi\<close> and, flight by flight, in \<open>plot_multiple_routes\<close>. The code
  has no fallback for \<open>d_max = d_min\<close>.
\<close>

theorem C1_density_weights_unit_interval:
  "(data \<noteq> [] \<and> Min (kde data ` set data) \<noteq> Max (kde data ` set data) \<longrightarrow>
     (\<exists>ws. density_weights kde data = Inr ws \<and> length ws = length data \<and>
        (\<forall>i<length data. \<exists>w. ws ! i = Fin w \<and> 0 \<le> w \<and> w \<le> 1 \<and>
            w = (kde data (data ! i) - Min (kde data ` set data))
                  / (Max (kde data ` set data) - Min (kde data ` set data)))))
   \<and> (concat flights \<noteq> [] \<and>
        Min (kde (concat flights) ` set (concat flights))
          \<noteq> Max (kde (concat flights) ` set (concat flights)) \<longrightarrow>
     (\<exists>wss. route_density_weights kde flights = Inr wss \<and> length wss = length flights \<and>
        (\<forall>i<length flights. length (wss ! i) = length (flights ! i) \<and>
           (\<forall>j<length (flights ! i). \<exists>w. wss ! i ! j = Fin w \<and> 0 \<le> w \<and> w \<le> 1 \<and>
              w = (kde (concat flights) (flights ! i ! j) - Min (kde (concat flights) ` set (concat flights)))
                  / (Max (kde (concat flights) ` set (concat flights))
                     - Min (kde (concat flights) ` set (concat flights)))))))"
proof (intro conjI impI)
  assume a: "data \<noteq> [] \<and> Min (kde data ` set data) \<noteq> Max (kde data ` set data)"
  define kv where "kv = map (kde data) data"
  have kv: "kv \<noteq> []" "set kv = kde data ` set data" using a by (simp_all add: kv_def)
  have cv: "colors_value kv = Inr (map (\<lambda>d. Fin ((d - Min (set kv)) / (Max (set kv) - Min (set kv)))) kv)"
    using a kv by (intro colors_value_range) simp_all
  have rng: "0 \<le> (kde data (data ! i) - Min (set kv)) / (Max (set kv) - Min (set kv))
           \<and> (kde data (data ! i) - Min (set kv)) / (Max (set kv) - Min (set kv)) \<le> 1"
    if "i < length data" for i
  proof -
    have "kde data (data ! i) \<in> set kv" using that by (simp add: kv)
    then have "Min (set kv) \<le> kde data (data ! i)" "kde data (data ! i) \<le> Max (set kv)" by simp_all
    moreover have "Min (set kv) \<noteq> Max (set kv)" using a kv by simp
    ultimately show ?thesis using normalised_unit_interval(2,3) by blast
  qed
  show "\<exists>ws. density_weights kde data = Inr ws \<and> length ws = length data \<and>
        (\<forall>i<length data. \<exists>w. ws ! i = Fin w \<and> 0 \<le> w \<and> w \<le> 1 \<and>
            w = (kde data (data ! i) - Min (kde data ` set data))
                  / (Max (kde data ` set data) - Min (kde data ` set data)))"
    using cv rng unfolding density_weights_def kv_def [symmetric] kv(2) [symmetric]
    by (simp add: kv_def)
next
  let ?pooled = "concat flights"
  assume a: "?pooled \<noteq> [] \<and> Min (kde ?pooled ` set ?pooled) \<noteq> Max (kde ?pooled ` set ?pooled)"
  define kv where "kv = map (kde ?pooled) ?pooled"
  have kv: "kv \<noteq> []" "set kv = kde ?pooled ` set ?pooled" using a by (simp_all add: kv_def)
  have ne: "Min (set kv) \<noteq> Max (set kv)" using a kv by simp
  have rd: "route_density_weights kde flights
           = Inr (map (map (\<lambda>p. np_div (kde ?pooled p - Min (set kv)) (Max (set kv) - Min (set kv)))) flights)"
    using kv(1) by (simp add: route_density_weights_def Let_def kv_def [symmetric] np_max_Max np_min_Min)
  have pt: "\<exists>w. np_div (kde ?pooled (flights ! i ! j) - Min (set kv)) (Max (set kv) - Min (set kv)) = Fin w
              \<and> 0 \<le> w \<and> w \<le> 1
              \<and> w = (kde ?pooled (flights ! i ! j) - Min (set kv)) / (Max (set kv) - Min (set kv))"
    if "i < length flights" "j < length (flights ! i)" for i j
  proof -
    have "flights ! i \<in> set flights" "flights ! i ! j \<in> set (flights ! i)"
      using that by simp_all
    then have "flights ! i ! j \<in> set ?pooled" by auto
    then have "kde ?pooled (flights ! i ! j) \<in> set kv" by (simp add: kv)
    then have "Min (set kv) \<le> kde ?pooled (flights ! i ! j)" "kde ?pooled (flights ! i ! j) \<le> Max (set kv)"
      by simp_all
    then show ?thesis using ne normalised_unit_interval by blast
  qed
  have "\<exists>wss. route_density_weights kde flights = Inr wss \<and> length wss = length flights \<and>
        (\<forall>i<length flights. length (wss ! i) = length (flights ! i) \<and>
           (\<forall>j<length (flights ! i). \<exists>w. wss ! i ! j = Fin w \<and> 0 \<le> w \<and> w \<le> 1 \<and>
              w = (kde ?pooled (flights ! i ! j) - Min (set kv)) / (Max (set kv) - Min (set kv))))"
    unfolding rd using pt by simp
  then show "\<exists>wss. route_density_weights kde flights = Inr wss \<and> length wss = length flights \<and>
        (\<forall>i<length flights. length (wss ! i) = length (flights ! i) \<and>
           (\<forall>j<length (flights ! i). \<exists>w. wss ! i ! j = Fin w \<and> 0 \<le> w \<and> w \<le> 1 \<and>
              w = (kde (concat flights) (flights ! i ! j) - Min (kde (concat flights) ` set (concat flights)))
                  / (Max (kde (concat flights) ` set (concat flights))
                     - Min (kde (concat flights) ` set (concat flights)))))"
    unfolding kv(2) .
qed

text \<open>
  The claim fails on a cloud whose densities are all equal, as they are for identical
  points: every weight is NaN.
\<close>

theorem C1_density_weights_counterexample:
  "colors_value [1 / 2, 1 / 2, 1 / 2] = Inr [NaN, NaN, NaN]"
  by (simp add: colors_value_def np_div_def)

theorem C1_density_weights_unit_interval_witness:
  "(\<exists>ws. density_weights (\<lambda>d p. fst p) [(1, 0), (3, 0)] = Inr ws \<and> length ws = 2)
   \<and> (\<exists>wss. route_density_weights (\<lambda>d p. fst p) [[(1, 0)], [(3, 0)]] = Inr wss \<and> length wss = 2)"
proof -
  let ?K = "\<lambda>(d :: (real \<times> real) list) (p :: real \<times> real). fst p"
  let ?D = "[(1, 0), (3, 0)] :: (real \<times> real) list"
  let ?F = "[[(1, 0)], [(3, 0)]] :: (real \<times> real) list list"
  have h1: "?D \<noteq> [] \<and> Min (?K ?D ` set ?D) \<noteq> Max (?K ?D ` set ?D)"
    by simp
  have h2: "concat ?F \<noteq> [] \<and> Min (?K (concat ?F) ` set (concat ?F)) \<noteq> Max (?K (concat ?F) ` set (concat ?F))"
    by simp
  note inst = C1_density_weights_unit_interval [of ?D ?K ?F]
  from inst [THEN conjunct1, rule_format, OF h1]
  obtain ws where ws: "density_weights ?K ?D = Inr ws" "length ws = length ?D"
    by (elim exE conjE)
  from inst [THEN conjunct2, rule_format, OF h2]
  obtain wss where wss: "route_density_weights ?K ?F = Inr wss" "length wss = length ?F"
    by (elim exE conjE)
  from ws wss show ?thesis by simp
qed

section \<open>The resampling grid and the interpolant\<close>

lemma length_linspace [simp]: "length (linspace_vals a b n) = n"
  by (simp add: linspace_vals_def)

lemma linspace_nth:
  assumes "2 \<le> n" "i < n"
  shows "linspace_vals a b n ! i = a + real i * ((b - a) / real (n - 1))"
proof (cases "i < n - 1")
  case True
  then show ?thesis using assms by (simp add: linspace_vals_def nth_append)
next
  case False
  then have i: "i = n - 1" using assms by simp
  have "real (n - 1) \<noteq> 0" using assms by simp
  then show ?thesis using assms by (simp add: linspace_vals_def nth_append i)
qed

lemma linspace_hd: "1 \<le> n \<Longrightarrow> hd (linspace_vals a b n) = a"
  by (cases "n = 1") (simp_all add: linspace_vals_def hd_append hd_map upt_rec)

lemma linspace_last: "2 \<le> n \<Longrightarrow> last (linspace_vals a b n) = b"
  by (simp add: linspace_vals_def)

lemma linspace_last_one: "last (linspace_vals a b 1) = a"
  by (simp add: linspace_vals_def)

lemma linspace_strict:
  assumes "a < b"
  shows "sorted_wrt (<) (linspace_vals a b n)"
proof (cases "2 \<le> n")
  case True
  have step: "0 < (b - a) / real (n - 1)" using assms True by simp
  show ?thesis
    unfolding sorted_wrt_iff_nth_less
  proof (intro allI impI)
    fix i j assume "i < j" "j < length (linspace_vals a b n)"
    then have "i < n" "j < n" by simp_all
    have "real i * ((b - a) / real (n - 1)) < real j * ((b - a) / real (n - 1))"
      using \<open>i < j\<close> step by (intro mult_strict_right_mono) simp_all
    then show "linspace_vals a b n ! i < linspace_vals a b n ! j"
      using True \<open>i < n\<close> \<open>j < n\<close> by (simp only: linspace_nth add_strict_left_mono)
  qed
next
  case False
  then have "n = 0 \<or> n = 1" by arith
  then show ?thesis by (auto simp: linspace_vals_def)
qed

lemma interp_from_knot:
  "sorted_wrt (<) (map fst ks) \<Longrightarrow> j < length ks \<Longrightarrow> interp_from (fst (ks ! j)) ks = snd (ks ! j)"
proof (induction "fst (ks ! j)" ks arbitrary: j rule: interp_from.induct)
  case 1
  then show ?case by simp
next
  case (2 x0 y0)
  then show ?case by simp
next
  case (3 x0 y0 x1 y1 rest)
  show ?case
  proof (cases j)
    case 0
    then show ?thesis using "3.prems" by simp
  next
    case (Suc j')
    have ge: "x1 \<le> fst (((x1, y1) # rest) ! j')"
      using "3.prems" Suc by (cases j') (auto simp: less_imp_le)
    have "interp_from (fst (((x1, y1) # rest) ! j')) ((x1, y1) # rest) = snd (((x1, y1) # rest) ! j')"
      using "3.prems" Suc ge by (intro "3.hyps") (auto simp: Suc)
    then show ?thesis using Suc ge by simp
  qed
qed

lemma interp1_knot:
  assumes "sorted_wrt (<) xp" "length fp = length xp" "j < length xp"
  shows "interp1 (xp ! j) (zip xp fp) = fp ! j"
proof -
  let ?ks = "zip xp fp"
  have m: "map fst ?ks = xp" using assms(2) by simp
  have j: "j < length ?ks" using assms by simp
  have k: "?ks ! j = (xp ! j, fp ! j)" using assms by simp
  have "fst (hd ?ks) \<le> xp ! j"
  proof (cases j)
    case 0
    then show ?thesis using assms by (cases xp; cases fp) simp_all
  next
    case (Suc j')
    have "xp ! 0 < xp ! j" using assms Suc by (simp add: sorted_wrt_iff_nth_less)
    moreover have "fst (hd ?ks) = xp ! 0" using assms by (cases xp; cases fp) simp_all
    ultimately show ?thesis by simp
  qed
  moreover have "interp_from (fst (?ks ! j)) ?ks = snd (?ks ! j)"
    using m j assms(1) by (intro interp_from_knot) simp_all
  ultimately show ?thesis by (simp add: interp1_def k)
qed

lemma interp_from_segment:
  "sorted_wrt (<) (map fst ks) \<Longrightarrow> Suc j < length ks \<Longrightarrow> fst (ks ! j) \<le> x
   \<Longrightarrow> x < fst (ks ! Suc j)
   \<Longrightarrow> interp_from x ks = (if x = fst (ks ! j) then snd (ks ! j) else lerp x (ks ! j) (ks ! Suc j))"
proof (induction x ks arbitrary: j rule: interp_from.induct)
  case (1 x)
  then show ?case by simp
next
  case (2 x x0 y0)
  then show ?case by simp
next
  case (3 x x0 y0 x1 y1 rest)
  show ?case
  proof (cases j)
    case 0
    then show ?thesis using "3.prems" by simp
  next
    case (Suc j')
    have ge: "x1 \<le> fst (((x1, y1) # rest) ! j')"
      using "3.prems" Suc by (cases j') (auto simp: less_imp_le)
    then have nlt: "\<not> x < x1" using "3.prems" Suc by simp
    have "interp_from x ((x1, y1) # rest)
            = (if x = fst (((x1, y1) # rest) ! j') then snd (((x1, y1) # rest) ! j')
               else lerp x (((x1, y1) # rest) ! j') (((x1, y1) # rest) ! Suc j'))"
      using "3.prems" Suc nlt by (intro "3.IH") simp_all
    then show ?thesis using Suc nlt by simp
  qed
qed

lemma interp1_linear:
  assumes "sorted_wrt (<) xp" "length fp = length xp" "Suc j < length xp"
      and "xp ! j \<le> x" "x \<le> xp ! Suc j" "fp ! j = Fin a" "fp ! Suc j = Fin b"
  shows "interp1 x (zip xp fp) = Fin (a + (b - a) * (x - xp ! j) / (xp ! Suc j - xp ! j))"
proof -
  let ?ks = "zip xp fp"
  have lt: "xp ! j < xp ! Suc j" using assms(1,3) by (simp add: sorted_wrt_iff_nth_less)
  show ?thesis
  proof (cases "x = xp ! Suc j")
    case True
    have "interp1 (xp ! Suc j) ?ks = fp ! Suc j" using assms(1-3) by (intro interp1_knot)
    then show ?thesis using True lt assms(7) by simp
  next
    case False
    then have xlt: "x < xp ! Suc j" using assms(5) by simp
    have m: "map fst ?ks = xp" using assms(2) by simp
    have kj: "?ks ! j = (xp ! j, Fin a)" "?ks ! Suc j = (xp ! Suc j, Fin b)"
      using assms by simp_all
    have first: "fst (hd ?ks) \<le> x"
    proof -
      have "fst (hd ?ks) = xp ! 0" using assms by (cases xp; cases fp) simp_all
      moreover have "xp ! 0 \<le> xp ! j"
        using assms(1,3) by (cases j) (simp_all add: sorted_wrt_iff_nth_less less_imp_le)
      ultimately show ?thesis using assms(4) by simp
    qed
    have "interp_from x ?ks = (if x = fst (?ks ! j) then snd (?ks ! j) else lerp x (?ks ! j) (?ks ! Suc j))"
      using assms xlt m by (intro interp_from_segment) simp_all
    then have "interp_from x ?ks = Fin (a + (b - a) * (x - xp ! j) / (xp ! Suc j - xp ! j))"
      using lt by (simp add: kj)
    then show ?thesis using first by (simp add: interp1_def)
  qed
qed

lemma pow2_pos: "0 < pow2 k"
  by (simp add: pow2_def)

lemma round_half_even_le_ceiling: "round_half_even y \<le> \<lceil>y\<rceil>"
proof -
  have "\<lfloor>y\<rfloor> \<le> \<lceil>y\<rceil>" by (rule floor_le_ceiling)
  moreover have "\<lfloor>y\<rfloor> + 1 \<le> \<lceil>y\<rceil>" if "y - of_int \<lfloor>y\<rfloor> \<noteq> 0"
  proof -
    have "of_int \<lfloor>y\<rfloor> < y" using that of_int_floor_le [of y] by linarith
    then have "\<lfloor>y\<rfloor> < \<lceil>y\<rceil>" by (simp add: less_ceiling_iff)
    then show ?thesis by simp
  qed
  ultimately show ?thesis
    by (auto simp: round_half_even_def Let_def)
qed

lemma round_half_even_nonneg: "0 \<le> y \<Longrightarrow> 0 \<le> round_half_even y"
proof -
  assume "0 \<le> y"
  then have "0 \<le> \<lfloor>y\<rfloor>" by simp
  then show ?thesis by (auto simp: round_half_even_def Let_def)
qed

lemma ulp_exponent_below_512:
  assumes "0 < x" "x < 512"
  shows "ulp_exponent x \<le> 8"
proof -
  have "log 2 x < log 2 512" using assms by simp
  also have "log 2 512 = 9"
  proof -
    have "(512 :: real) = 2 ^ 9" by simp
    then show ?thesis by (simp only: log_pow_cancel)
  qed
  finally have "log 2 x < 9" .
  then have "\<lfloor>log 2 x\<rfloor> < 9" by (simp add: floor_less_iff)
  then show ?thesis using assms by (simp add: ulp_exponent_def)
qed

lemma round_double_below_360:
  assumes "0 < x" "x < 360"
  shows "0 \<le> round_double x" and "round_double x \<le> 360"
proof -
  define e where "e = ulp_exponent x"
  define n where "n = nat (52 - e)"
  define u where "u = pow2 (e - 52)"
  have e: "e \<le> 8" unfolding e_def using assms by (intro ulp_exponent_below_512) simp_all
  have u: "u = 1 / 2 ^ n" using e by (simp add: u_def pow2_def n_def)
  have upos: "0 < u" by (simp add: u)
  have rd: "round_double x = u * of_int (round_half_even (x / u))"
    using assms by (simp add: round_double_def Let_def u_def e_def)
  have "0 \<le> x / u" using assms upos by simp
  then have "0 \<le> round_half_even (x / u)" by (rule round_half_even_nonneg)
  then show "0 \<le> round_double x" using upos by (simp add: rd)
  have "x / u \<le> of_int (360 * 2 ^ n)" using assms by (simp add: u)
  then have "\<lceil>x / u\<rceil> \<le> 360 * 2 ^ n" by (simp add: ceiling_le_iff)
  then have "round_half_even (x / u) \<le> 360 * 2 ^ n"
    using round_half_even_le_ceiling [of "x / u"] by linarith
  then have "(of_int (round_half_even (x / u)) :: real) \<le> of_int (360 * 2 ^ n)"
    by (simp only: of_int_le_iff)
  then have "u * of_int (round_half_even (x / u)) \<le> u * of_int (360 * 2 ^ n)"
    using upos by (simp only: mult_le_cancel_left_pos)
  also have "u * of_int (360 * 2 ^ n) = 360" by (simp add: u)
  finally show "round_double x \<le> 360" by (simp add: rd)
qed

lemma fmod_360_nonneg:
  assumes "0 \<le> a"
  shows "fmod a 360 = a - 360 * of_int \<lfloor>a / 360\<rfloor>" "0 \<le> fmod a 360" "fmod a 360 < 360"
proof -
  show eq: "fmod a 360 = a - 360 * of_int \<lfloor>a / 360\<rfloor>" using assms by (simp add: fmod_def)
  have "a - 360 * of_int \<lfloor>a / 360\<rfloor> = 360 * frac (a / 360)" by (simp add: frac_def)
  moreover have "0 \<le> frac (a / 360)" "frac (a / 360) < 1" by (simp_all add: frac_lt_1)
  ultimately show "0 \<le> fmod a 360" "fmod a 360 < 360" by (simp_all add: eq)
qed

lemma fmod_360_neg:
  assumes "a < 0"
  shows "fmod a 360 = a - 360 * of_int \<lceil>a / 360\<rceil>" "- 360 < fmod a 360" "fmod a 360 \<le> 0"
proof -
  show eq: "fmod a 360 = a - 360 * of_int \<lceil>a / 360\<rceil>" using assms by (simp add: fmod_def)
  have c: "of_int \<lceil>a / 360\<rceil> - 1 < a / 360" "a / 360 \<le> of_int \<lceil>a / 360\<rceil>"
    by linarith+
  then show "- 360 < fmod a 360" "fmod a 360 \<le> 0" unfolding eq by linarith+
qed

lemma np_mod_range:
  "isnan (np_mod v 360) \<or> (\<exists>r. np_mod v 360 = Fin r \<and> 0 \<le> r \<and> r \<le> 360)"
proof (cases v)
  case NaN
  then show ?thesis by simp
next
  case (Fin a)
  show ?thesis
  proof (cases "0 \<le> a")
    case True
    then show ?thesis using Fin fmod_360_nonneg [of a] by (simp add: Let_def)
  next
    case False
    then have neg: "a < 0" by simp
    note f = fmod_360_neg [OF neg]
    show ?thesis
    proof (cases "fmod a 360 = 0")
      case True
      then show ?thesis using Fin by simp
    next
      case False
      then have "0 < fmod a 360 + 360" "fmod a 360 + 360 < 360" "fmod a 360 < 0"
        using f by simp_all
      then show ?thesis
        using Fin False round_double_below_360 [of "fmod a 360 + 360"] by (simp add: Let_def)
    qed
  qed
qed

text \<open>Values already in \<open>[0, 360)\<close> are left as they are.\<close>

lemma np_mod_fixed:
  assumes "0 \<le> r" "r < 360"
  shows "np_mod (Fin r) 360 = Fin r"
proof -
  have "\<lfloor>r / 360\<rfloor> = 0" using assms by (simp add: floor_eq_iff)
  then have "fmod r 360 = r" using assms by (simp add: fmod_def)
  then show ?thesis using assms by (simp add: Let_def)
qed

lemma np_mod_exact_nonneg:
  assumes "0 \<le> a"
  shows "np_mod (Fin a) 360 = Fin (a - 360 * of_int \<lfloor>a / 360\<rfloor>)"
  using fmod_360_nonneg [OF assms] by (auto simp: Let_def)

lemma np_mod_idem:
  assumes "np_mod v 360 \<noteq> Fin 360"
  shows "np_mod (np_mod v 360) 360 = np_mod v 360"
proof -
  from np_mod_range [of v] show ?thesis
  proof
    assume "isnan (np_mod v 360)"
    then show ?thesis by (cases "np_mod v 360") simp_all
  next
    assume "\<exists>r. np_mod v 360 = Fin r \<and> 0 \<le> r \<and> r \<le> 360"
    then obtain r where r: "np_mod v 360 = Fin r" "0 \<le> r" "r \<le> 360" by blast
    with assms have "r < 360" by auto
    then show ?thesis using r np_mod_fixed by simp
  qed
qed

lemma ulp_exponent_near_360: "ulp_exponent (360 - 1 / 2 ^ 60) = 8"
proof -
  let ?x = "360 - 1 / 2 ^ 60 :: real"
  have b: "256 \<le> ?x" "?x < 512" by simp_all
  have "log 2 256 \<le> log 2 ?x" using b by simp
  moreover have "log 2 256 = 8"
  proof -
    have "(256 :: real) = 2 ^ 8" by simp
    then show ?thesis by (simp only: log_pow_cancel)
  qed
  moreover have "log 2 ?x < log 2 512" using b by simp
  moreover have "log 2 512 = 9"
  proof -
    have "(512 :: real) = 2 ^ 9" by simp
    then show ?thesis by (simp only: log_pow_cancel)
  qed
  ultimately have "8 \<le> log 2 ?x" "log 2 ?x < 9" by simp_all
  then have "\<lfloor>log 2 ?x\<rfloor> = 8" by (simp add: floor_eq_iff)
  then show ?thesis by (simp add: ulp_exponent_def)
qed

lemma round_double_near_360: "round_double (360 - 1 / 2 ^ 60) = 360"
proof -
  let ?x = "360 - 1 / 2 ^ 60 :: real"
  let ?u = "1 / 2 ^ 44 :: real"
  have u: "pow2 (ulp_exponent ?x - 52) = ?u"
    by (simp only: ulp_exponent_near_360) (simp add: pow2_def)
  have y: "?x / ?u = of_int (360 * 2 ^ 44 - 1) + (1 - 1 / 2 ^ 16)" by simp
  have fl: "\<lfloor>?x / ?u\<rfloor> = 360 * 2 ^ 44 - 1"
    unfolding y by (rule floor_unique) simp_all
  have "?x / ?u - of_int \<lfloor>?x / ?u\<rfloor> = 1 - 1 / 2 ^ 16" unfolding fl using y by simp
  then have "round_half_even (?x / ?u) = 360 * 2 ^ 44"
    unfolding round_half_even_def Let_def fl by simp
  then have "round_double ?x = ?u * of_int (360 * 2 ^ 44)"
    unfolding round_double_def Let_def u by simp
  then show ?thesis by simp
qed

lemma np_mod_tiny_negative: "np_mod (Fin (- (1 / 2 ^ 60))) 360 = Fin 360"
proof -
  have c: "\<lceil>- (1 / 2 ^ 60) / 360 :: real\<rceil> = 0" by (simp add: ceiling_eq_iff)
  have "fmod (- (1 / 2 ^ 60)) 360 = - (1 / 2 ^ 60)"
    unfolding fmod_def c by simp
  then show ?thesis using round_double_near_360 by (simp add: Let_def)
qed

lemma np_mod_tiny_negative_numeral:
  "np_mod (Fin (- (1 / 1152921504606846976))) 360 = Fin 360"
  using np_mod_tiny_negative by simp

lemma np_mod_360: "np_mod (Fin 360) 360 = Fin 0"
  by (simp add: fmod_def Let_def)

lemma np_mod_360_cases:
  "np_mod (Fin a) 360
     = Fin (if 0 \<le> a \<or> a - 360 * of_int \<lfloor>a / 360\<rfloor> = 0 then a - 360 * of_int \<lfloor>a / 360\<rfloor>
            else round_double (a - 360 * of_int \<lfloor>a / 360\<rfloor>))"
proof (cases "0 \<le> a")
  case True
  then show ?thesis by (simp add: np_mod_exact_nonneg del: np_mod.simps)
next
  case False
  then have neg: "a < 0" by simp
  note f = fmod_360_neg [OF neg]
  show ?thesis
  proof (cases "of_int \<lfloor>a / 360\<rfloor> = a / 360")
    case True
    then have "\<lceil>a / 360\<rceil> = \<lfloor>a / 360\<rfloor>" by (metis ceiling_of_int)
    moreover have "a - 360 * of_int \<lfloor>a / 360\<rfloor> = 0" using True by simp
    ultimately show ?thesis using neg f(1) by (simp add: Let_def)
  next
    case False
    then have c: "\<lceil>a / 360\<rceil> = \<lfloor>a / 360\<rfloor> + 1" by (simp add: ceiling_altdef)
    have nz: "a - 360 * of_int \<lfloor>a / 360\<rfloor> \<noteq> 0" using False by auto
    have "fmod a 360 + 360 = a - 360 * of_int \<lfloor>a / 360\<rfloor>" by (simp add: f(1) c)
    moreover have lt0: "fmod a 360 < 0"
    proof -
      define fl :: real where "fl = of_int \<lfloor>a / 360\<rfloor>"
      have 1: "fmod a 360 = a - 360 * (fl + 1)" by (simp add: f(1) c fl_def)
      have "a / 360 < fl + 1" unfolding fl_def by linarith
      then have "a < 360 * (fl + 1)" by (simp add: field_simps)
      with 1 show ?thesis by simp
    qed
    moreover have "fmod a 360 \<noteq> 0" using lt0 by simp
    ultimately show ?thesis using neg nz by (simp add: Let_def)
  qed
qed

declare np_mod.simps(1) [simp del]

lemma resample_success:
  assumes "map_of (quantities df) q = Some col" "q \<noteq> ''time''" "time df \<noteq> []"
      and "length col = length (time df)" "0 \<le> M"
  shows "resample df q M
           = Inr (linspace_vals (hd (time df)) (last (time df)) (nat M),
                  map (\<lambda>x. if circular q then np_mod (interp1 x (zip (time df) col)) 360
                            else interp1 x (zip (time df) col))
                    (linspace_vals (hd (time df)) (last (time df)) (nat M)))"
  using assms
  by (cases "time df")
     (simp_all add: resample_def df_select_def df_columns_def iloc_first_def iloc_last_def
        np_linspace_def df_getitem_def np_interp_def)

lemma resample_InrD:
  assumes "resample df q M = Inr (ts, vs)"
  shows "\<exists>col. map_of (quantities df) q = Some col \<and> q \<noteq> ''time'' \<and> time df \<noteq> []
           \<and> length col = length (time df) \<and> 0 \<le> M"
  using assms
  by (auto simp: resample_def df_select_def df_columns_def iloc_first_def iloc_last_def
        np_linspace_def df_getitem_def np_interp_def try_bind_def
      split: if_splits option.splits list.splits sum.splits)

text \<open>
  The wrap artifact of the spec: two samples \<open>350\<close> and \<open>10\<close> of a circular
  quantity, resampled to three points, pass through \<open>180\<close>.
\<close>

lemma resample_wrap_example:
  "resample \<lparr>time = [0, 10], quantities = [(''lon'', [Fin 350, Fin 10])]\<rparr> ''lon'' 3
     = Inr ([0, 5, 10], [Fin 350, Fin 180, Fin 10])"
  by (simp add: resample_def df_select_def df_columns_def iloc_first_def iloc_last_def
        np_linspace_def linspace_vals_def df_getitem_def np_interp_def interp1_def circular_def
        np_mod_fixed upt_rec)

text \<open>
  C6. For a trajectory with at least two samples at strictly increasing times and a
  target count \<open>M \<ge> 2\<close>, resampling a quantity of the frame returns \<open>M\<close> time values,
  the first equal to the first sample time and the last equal to the last sample time,
  with the constant spacing \<open>(t_last - t_first) / (M - 1)\<close>, and \<open>M\<close> quantity values;
  each value is the linear interpolant between the two samples that enclose its grid
  time (reduced modulo 360 for a circular quantity).
\<close>

theorem C6_resample_grid:
  assumes "map_of (quantities df) q = Some col" "q \<noteq> ''time''"
      and "length col = length (time df)" "2 \<le> length (time df)" "sorted_wrt (<) (time df)"
      and "2 \<le> M"
  shows "\<exists>ts vs. resample df q M = Inr (ts, vs)
      \<and> length ts = nat M \<and> hd ts = hd (time df) \<and> last ts = last (time df)
      \<and> (\<forall>i. Suc i < nat M \<longrightarrow>
            ts ! Suc i - ts ! i = (last (time df) - hd (time df)) / (real_of_int M - 1))
      \<and> length vs = nat M
      \<and> (\<forall>i<nat M. \<forall>j a b.
            Suc j < length (time df) \<and> time df ! j \<le> ts ! i \<and> ts ! i \<le> time df ! Suc j
              \<and> col ! j = Fin a \<and> col ! Suc j = Fin b \<longrightarrow>
            vs ! i = (let v = Fin (a + (b - a) * (ts ! i - time df ! j) / (time df ! Suc j - time df ! j))
                      in if circular q then np_mod v 360 else v))"
proof -
  define n where "n = nat M"
  define ts where "ts = linspace_vals (hd (time df)) (last (time df)) n"
  define vs where "vs = map (\<lambda>x. if circular q then np_mod (interp1 x (zip (time df) col)) 360
                            else interp1 x (zip (time df) col)) ts"
  have n: "2 \<le> n" "real (n - 1) = real_of_int M - 1" using assms(6) by (simp_all add: n_def)
  have ne: "time df \<noteq> []" using assms(4) by auto
  have res: "resample df q M = Inr (ts, vs)"
    unfolding ts_def vs_def n_def using assms ne by (intro resample_success) simp_all
  have step: "ts ! Suc i - ts ! i = (last (time df) - hd (time df)) / (real_of_int M - 1)"
    if "Suc i < n" for i
  proof -
    define s where "s = (last (time df) - hd (time df)) / real (n - 1)"
    have "ts ! Suc i = hd (time df) + real (Suc i) * s"
      unfolding ts_def s_def using n(1) that by (rule linspace_nth)
    moreover have "ts ! i = hd (time df) + real i * s"
      unfolding ts_def s_def using n(1) that by (intro linspace_nth) simp_all
    ultimately have "ts ! Suc i - ts ! i = s" by (simp add: algebra_simps)
    then show ?thesis by (simp only: s_def n(2))
  qed
  have lin: "vs ! i = (let v = Fin (a + (b - a) * (ts ! i - time df ! j) / (time df ! Suc j - time df ! j))
                      in if circular q then np_mod v 360 else v)"
    if "i < n" "Suc j < length (time df)" "time df ! j \<le> ts ! i" "ts ! i \<le> time df ! Suc j"
       "col ! j = Fin a" "col ! Suc j = Fin b" for i j a b
  proof -
    have "interp1 (ts ! i) (zip (time df) col)
            = Fin (a + (b - a) * (ts ! i - time df ! j) / (time df ! Suc j - time df ! j))"
      using assms(5,3) that(2-6) by (rule interp1_linear)
    moreover have "i < length ts" using that(1) by (simp add: ts_def)
    ultimately show ?thesis by (simp add: vs_def)
  qed
  have "length ts = n" "length vs = n" by (simp_all add: ts_def vs_def)
  moreover have "hd ts = hd (time df)" unfolding ts_def using n(1) by (intro linspace_hd) simp
  moreover have "last ts = last (time df)" unfolding ts_def using n(1) by (rule linspace_last)
  ultimately show ?thesis
    using res step lin unfolding n_def [symmetric] by blast
qed

theorem C6_resample_grid_witness:
  "resample \<lparr>time = [0, 10], quantities = [(''lon'', [Fin 350, Fin 10])]\<rparr> ''lon'' 3
     = Inr ([0, 5, 10], [Fin 350, Fin 180, Fin 10])
   \<and> (\<exists>ts vs. resample \<lparr>time = [0, 10], quantities = [(''lon'', [Fin 350, Fin 10])]\<rparr> ''lon'' 3
                  = Inr (ts, vs)
         \<and> length ts = 3 \<and> hd ts = 0 \<and> last ts = 10 \<and> length vs = 3)"
proof -
  let ?df = "\<lparr>time = [0, 10], quantities = [(''lon'', [Fin 350, Fin 10])]\<rparr>"
  have h1: "map_of (quantities ?df) ''lon'' = Some [Fin 350, Fin 10]" by simp
  have h2: "''lon'' \<noteq> ''time''" by simp
  have h3: "length [Fin 350, Fin 10] = length (time ?df)" by simp
  have h4: "2 \<le> length (time ?df)" by simp
  have h5: "sorted_wrt (<) (time ?df)" by simp
  have h6: "2 \<le> (3 :: int)" by simp
  from C6_resample_grid [OF h1 h2 h3 h4 h5 h6]
  obtain ts vs where r: "resample ?df ''lon'' 3 = Inr (ts, vs)" "length ts = nat 3"
     "hd ts = hd (time ?df)" "last ts = last (time ?df)" "length vs = nat 3"
    by blast
  then have "\<exists>ts vs. resample ?df ''lon'' 3 = Inr (ts, vs)
         \<and> length ts = 3 \<and> hd ts = 0 \<and> last ts = 10 \<and> length vs = 3"
    by simp
  with resample_wrap_example show ?thesis by (rule conjI)
qed

text \<open>
  C7, as the code has it. For a trajectory with at least two samples at strictly
  increasing times and at least one grid point, resampling the resampled series again
  to the same number of points returns the same time and quantity values, provided the
  quantity is not circular or no resampled value is \<open>360\<close>. For a circular quantity
  \<open>np.mod\<close> can return \<open>360\<close> itself, which the second pass reduces to \<open>0\<close>.
\<close>

theorem C7_resample_idempotent:
  assumes "resample df q M = Inr (ts, vs)"
      and "sorted_wrt (<) (time df)" "2 \<le> length (time df)" "1 \<le> M"
      and "circular q \<longrightarrow> Fin 360 \<notin> set vs"
  shows "resample \<lparr>time = ts, quantities = [(q, vs)]\<rparr> q M = Inr (ts, vs)"
proof -
  define n where "n = nat M"
  define t0 where "t0 = hd (time df)"
  define t1 where "t1 = last (time df)"
  from resample_InrD [OF assms(1)] obtain col where
    col: "map_of (quantities df) q = Some col" "q \<noteq> ''time''" "time df \<noteq> []"
         "length col = length (time df)" "0 \<le> M"
    by blast
  let ?f = "\<lambda>x. if circular q then np_mod (interp1 x (zip (time df) col)) 360
                 else interp1 x (zip (time df) col)"
  have "resample df q M = Inr (linspace_vals t0 t1 n, map ?f (linspace_vals t0 t1 n))"
    unfolding t0_def t1_def n_def using col by (rule resample_success)
  with assms(1) have ts: "ts = linspace_vals t0 t1 n" and vs: "vs = map ?f ts" by auto
  have n: "1 \<le> n" using assms(4) by (simp add: n_def)
  have len: "length ts = n" "length vs = n" by (simp_all add: ts vs)
  have lt: "t0 < t1"
  proof -
    have "time df ! 0 < time df ! (length (time df) - 1)"
      using assms(2,3) by (simp add: sorted_wrt_iff_nth_less)
    then show ?thesis using col(3) by (simp add: t0_def t1_def hd_conv_nth last_conv_nth)
  qed
  have strict: "sorted_wrt (<) ts" unfolding ts using lt by (rule linspace_strict)
  have grid: "linspace_vals (hd ts) (last ts) n = ts"
  proof (cases "n = 1")
    case True
    then show ?thesis by (simp add: ts linspace_vals_def)
  next
    case False
    then have "2 \<le> n" using n by simp
    then have "hd ts = t0" "last ts = t1"
      by (simp_all add: ts linspace_hd linspace_last)
    then show ?thesis by (simp add: ts)
  qed
  have knots: "map (\<lambda>x. interp1 x (zip ts vs)) ts = vs"
  proof (rule nth_equalityI)
    show "length (map (\<lambda>x. interp1 x (zip ts vs)) ts) = length vs" by (simp add: len)
  next
    fix i assume "i < length (map (\<lambda>x. interp1 x (zip ts vs)) ts)"
    then have i: "i < length ts" by simp
    have "interp1 (ts ! i) (zip ts vs) = vs ! i"
      using strict _ i by (rule interp1_knot) (simp add: len)
    then show "map (\<lambda>x. interp1 x (zip ts vs)) ts ! i = vs ! i" using i by simp
  qed
  have reduced: "map (\<lambda>v. np_mod v 360) vs = vs" if c: "circular q"
  proof (rule map_idI)
    fix v assume v: "v \<in> set vs"
    then obtain w where w: "v = np_mod w 360" using c by (auto simp: vs)
    have "v \<noteq> Fin 360" using assms(5) c v by auto
    then have "np_mod (np_mod w 360) 360 = np_mod w 360"
      unfolding w by (rule np_mod_idem)
    then show "np_mod v 360 = v" by (simp only: w)
  qed
  have ne: "ts \<noteq> []" using len n by auto
  have "resample \<lparr>time = ts, quantities = [(q, vs)]\<rparr> q M
          = Inr (linspace_vals (hd ts) (last ts) (nat M),
                 map (\<lambda>x. if circular q then np_mod (interp1 x (zip ts vs)) 360
                           else interp1 x (zip ts vs))
                   (linspace_vals (hd ts) (last ts) (nat M)))"
    using resample_success [of "\<lparr>time = ts, quantities = [(q, vs)]\<rparr>" q vs M] col(2,5) ne len
    by simp
  also have "linspace_vals (hd ts) (last ts) (nat M) = ts" using grid by (simp add: n_def)
  also have "map (\<lambda>x. if circular q then np_mod (interp1 x (zip ts vs)) 360
                           else interp1 x (zip ts vs)) ts = vs"
  proof (cases "circular q")
    case True
    have "map (\<lambda>x. np_mod (interp1 x (zip ts vs)) 360) ts
            = map (\<lambda>v. np_mod v 360) (map (\<lambda>x. interp1 x (zip ts vs)) ts)"
      by simp
    also have "\<dots> = vs" using True by (simp only: knots reduced)
    finally show ?thesis using True by simp
  next
    case False
    then show ?thesis using knots by simp
  qed
  finally show ?thesis .
qed

theorem C7_resample_idempotent_witness:
  "resample \<lparr>time = [0, 5, 10], quantities = [(''lon'', [Fin 350, Fin 180, Fin 10])]\<rparr> ''lon'' 3
     = Inr ([0, 5, 10], [Fin 350, Fin 180, Fin 10])"
proof -
  let ?df = "\<lparr>time = [0, 10], quantities = [(''lon'', [Fin 350, Fin 10])]\<rparr>"
  have h2: "sorted_wrt (<) (time ?df)" by simp
  have h3: "2 \<le> length (time ?df)" by simp
  have h4: "1 \<le> (3 :: int)" by simp
  have h5: "circular ''lon'' \<longrightarrow> Fin 360 \<notin> set [Fin 350, Fin 180, Fin 10]" by simp
  from C7_resample_idempotent [OF resample_wrap_example h2 h3 h4 h5] show ?thesis .
qed

text \<open>
  The claim fails for a circular quantity: a longitude of \<open>-2\<^sup>-\<^sup>6\<^sup>0\<close> degrees is
  resampled to \<open>360\<close>, and resampling the result again gives \<open>0\<close>.
\<close>

theorem C7_resample_idempotent_counterexample:
  "resample \<lparr>time = [0, 10],
      quantities = [(''lon'', [Fin (- (1 / 2 ^ 60)), Fin (- (1 / 2 ^ 60))])]\<rparr> ''lon'' 2
     = Inr ([0, 10], [Fin 360, Fin 360])
   \<and> resample \<lparr>time = [0, 10], quantities = [(''lon'', [Fin 360, Fin 360])]\<rparr> ''lon'' 2
     = Inr ([0, 10], [Fin 0, Fin 0])"
  by (simp add: resample_def df_select_def df_columns_def iloc_first_def iloc_last_def
        np_linspace_def linspace_vals_def df_getitem_def np_interp_def interp1_def circular_def
        np_mod_tiny_negative_numeral np_mod_360)

text \<open>
  C3, as the code has it. In \<open>plot_quantity\<close>, \<open>plot_quantity_multi\<close> and
  \<open>plot_quantity_shaded\<close> a circular quantity (\<open>lon\<close>, \<open>heading\<close>) is first
  interpolated linearly on the grid and then reduced modulo 360. Every returned value
  is NaN or lies in the closed interval \<open>[0, 360]\<close>: a non-negative interpolated value
  \<open>a\<close> is reduced exactly to \<open>a - 360 * floor (a / 360)\<close>, a negative one to the
  nearest double of that number, which is \<open>360\<close> itself when \<open>a\<close> is just below a
  multiple of 360. The route plots (\<open>plot_route\<close>, \<open>plot_multiple_routes\<close>,
  \<open>plot_multiple_routes_shaded\<close>) interpolate \<open>lon\<close> and return it without
  reduction.
\<close>

theorem C3_circular_reduction:
  "(circular q \<and> resample df q M = Inr (ts, vs) \<longrightarrow>
      (\<exists>col raw. map_of (quantities df) q = Some col
         \<and> np_interp ts (time df) col = Inr raw
         \<and> vs = map (\<lambda>v. np_mod v 360) raw
         \<and> (\<forall>i<length vs. isnan (vs ! i) \<or> (\<exists>r. vs ! i = Fin r \<and> 0 \<le> r \<and> r \<le> 360))
         \<and> (\<forall>i<length vs. \<forall>a. raw ! i = Fin a \<longrightarrow>
               vs ! i = Fin (if 0 \<le> a \<or> a - 360 * of_int \<lfloor>a / 360\<rfloor> = 0
                             then a - 360 * of_int \<lfloor>a / 360\<rfloor>
                             else round_double (a - 360 * of_int \<lfloor>a / 360\<rfloor>)))
         \<and> (\<forall>i<length vs. raw ! i = NaN \<longrightarrow> vs ! i = NaN)))
   \<and> (resample_route df M = Inr (lon, lat) \<longrightarrow>
      (\<exists>col. map_of (quantities df) ''lon'' = Some col
         \<and> np_interp (linspace_vals (hd (time df)) (last (time df)) (nat M)) (time df) col = Inr lon))"
proof (intro conjI impI)
  assume a: "circular q \<and> resample df q M = Inr (ts, vs)"
  from resample_InrD [of df q M ts vs] a obtain col where
    col: "map_of (quantities df) q = Some col" "q \<noteq> ''time''" "time df \<noteq> []"
         "length col = length (time df)" "0 \<le> M"
    by blast
  define raw where "raw = map (\<lambda>x. interp1 x (zip (time df) col)) ts"
  have "resample df q M
          = Inr (linspace_vals (hd (time df)) (last (time df)) (nat M),
                  map (\<lambda>x. if circular q then np_mod (interp1 x (zip (time df) col)) 360
                            else interp1 x (zip (time df) col))
                    (linspace_vals (hd (time df)) (last (time df)) (nat M)))"
    using col by (rule resample_success)
  with a have vs: "vs = map (\<lambda>v. np_mod v 360) raw" by (auto simp: raw_def)
  have interp: "np_interp ts (time df) col = Inr raw"
    using col by (simp add: np_interp_def raw_def)
  have rng: "\<forall>i<length vs. isnan (vs ! i) \<or> (\<exists>r. vs ! i = Fin r \<and> 0 \<le> r \<and> r \<le> 360)"
    using np_mod_range by (simp add: vs)
  have val: "\<forall>i<length vs. \<forall>a. raw ! i = Fin a \<longrightarrow>
               vs ! i = Fin (if 0 \<le> a \<or> a - 360 * of_int \<lfloor>a / 360\<rfloor> = 0
                             then a - 360 * of_int \<lfloor>a / 360\<rfloor>
                             else round_double (a - 360 * of_int \<lfloor>a / 360\<rfloor>))"
    by (simp add: vs np_mod_360_cases)
  have nan: "\<forall>i<length vs. raw ! i = NaN \<longrightarrow> vs ! i = NaN"
    by (simp add: vs)
  from col(1) interp vs rng val nan
  show "\<exists>col raw. map_of (quantities df) q = Some col
         \<and> np_interp ts (time df) col = Inr raw
         \<and> vs = map (\<lambda>v. np_mod v 360) raw
         \<and> (\<forall>i<length vs. isnan (vs ! i) \<or> (\<exists>r. vs ! i = Fin r \<and> 0 \<le> r \<and> r \<le> 360))
         \<and> (\<forall>i<length vs. \<forall>a. raw ! i = Fin a \<longrightarrow>
               vs ! i = Fin (if 0 \<le> a \<or> a - 360 * of_int \<lfloor>a / 360\<rfloor> = 0
                             then a - 360 * of_int \<lfloor>a / 360\<rfloor>
                             else round_double (a - 360 * of_int \<lfloor>a / 360\<rfloor>)))
         \<and> (\<forall>i<length vs. raw ! i = NaN \<longrightarrow> vs ! i = NaN)"
    by (intro exI conjI)
next
  assume "resample_route df M = Inr (lon, lat)"
  then show "\<exists>col. map_of (quantities df) ''lon'' = Some col
         \<and> np_interp (linspace_vals (hd (time df)) (last (time df)) (nat M)) (time df) col = Inr lon"
    by (auto simp: resample_route_def iloc_first_def iloc_last_def np_linspace_def df_getitem_def
          try_bind_def split: list.splits if_splits option.splits sum.splits)
qed

theorem C3_circular_reduction_witness:
  "(\<exists>col raw. map_of [(''lon'', [Fin 350, Fin 10])] ''lon'' = Some col
       \<and> np_interp [0, 5, 10] [0, 10] col = Inr raw
       \<and> [Fin 350, Fin 180, Fin 10] = map (\<lambda>v. np_mod v 360) raw)
   \<and> (\<exists>col. map_of [(''lat'', [Fin 30, Fin 31]), (''lon'', [Fin (- 91), Fin (- 90)])] ''lon'' = Some col
       \<and> np_interp (linspace_vals 0 10 2) [0, 10] col = Inr [Fin (- 91), Fin (- 90)])"
proof -
  let ?df = "\<lparr>time = [0, 10], quantities = [(''lon'', [Fin 350, Fin 10])]\<rparr>"
  let ?rf = "\<lparr>time = [0, 10], quantities = [(''lat'', [Fin 30, Fin 31]), (''lon'', [Fin (- 91), Fin (- 90)])]\<rparr>"
  have h1: "circular ''lon'' \<and> resample ?df ''lon'' 3 = Inr ([0, 5, 10], [Fin 350, Fin 180, Fin 10])"
    using resample_wrap_example by (simp add: circular_def)
  have h2: "resample_route ?rf 2 = Inr ([Fin (- 91), Fin (- 90)], [Fin 30, Fin 31])"
    by (simp add: resample_route_def iloc_first_def iloc_last_def np_linspace_def linspace_vals_def
        df_getitem_def np_interp_def interp1_def)
  note inst1 = C3_circular_reduction [of "''lon''" ?df 3 "[0, 5, 10]" "[Fin 350, Fin 180, Fin 10]",
      THEN conjunct1, rule_format, OF h1]
  note inst2 = C3_circular_reduction [of _ ?rf 2 _ _ "[Fin (- 91), Fin (- 90)]" "[Fin 30, Fin 31]",
      THEN conjunct2, rule_format, OF h2]
  from inst1 obtain col raw where
    c: "map_of (quantities ?df) ''lon'' = Some col" "np_interp [0, 5, 10] (time ?df) col = Inr raw"
       "[Fin 350, Fin 180, Fin 10] = map (\<lambda>v. np_mod v 360) raw"
    by (elim exE conjE)
  have q1: "quantities ?df = [(''lon'', [Fin 350, Fin 10])]" "time ?df = [0, 10]" by simp_all
  from c have a: "\<exists>col raw. map_of [(''lon'', [Fin 350, Fin 10])] ''lon'' = Some col
       \<and> np_interp [0, 5, 10] [0, 10] col = Inr raw
       \<and> [Fin 350, Fin 180, Fin 10] = map (\<lambda>v. np_mod v 360) raw"
    unfolding q1 by (intro exI conjI)
  from inst2 obtain col2 where
    d: "map_of (quantities ?rf) ''lon'' = Some col2"
       "np_interp (linspace_vals (hd (time ?rf)) (last (time ?rf)) (nat 2)) (time ?rf) col2
          = Inr [Fin (- 91), Fin (- 90)]"
    by (elim exE conjE)
  have q2: "quantities ?rf = [(''lat'', [Fin 30, Fin 31]), (''lon'', [Fin (- 91), Fin (- 90)])]"
    "time ?rf = [0, 10]" "hd [0, 10 :: real] = 0" "last [0, 10 :: real] = 10" "nat 2 = 2"
    by simp_all
  from d have b: "\<exists>col. map_of [(''lat'', [Fin 30, Fin 31]), (''lon'', [Fin (- 91), Fin (- 90)])] ''lon'' = Some col
       \<and> np_interp (linspace_vals 0 10 2) [0, 10] col = Inr [Fin (- 91), Fin (- 90)]"
    unfolding q2 by (intro exI conjI)
  from a b show ?thesis by (rule conjI)
qed

text \<open>
  The claim fails in \<open>plot_route\<close>: longitudes \<open>-91\<close> and \<open>-90\<close> are returned as
  they are, outside \<open>[0, 360)\<close>. It also fails at the upper end in \<open>plot_quantity\<close>:
  a longitude of \<open>-2\<^sup>-\<^sup>6\<^sup>0\<close> degrees is reduced to \<open>360\<close>.
\<close>

theorem C3_circular_reduction_counterexample:
  "resample_route \<lparr>time = [0, 10], quantities = [(''lat'', [Fin 30, Fin 31]), (''lon'', [Fin (- 91), Fin (- 90)])]\<rparr> 2
     = Inr ([Fin (- 91), Fin (- 90)], [Fin 30, Fin 31])
   \<and> resample \<lparr>time = [0, 10],
        quantities = [(''lon'', [Fin (- (1 / 2 ^ 60)), Fin (- (1 / 2 ^ 60))])]\<rparr> ''lon'' 2
     = Inr ([0, 10], [Fin 360, Fin 360])"
  by (simp add: resample_route_def resample_def df_select_def df_columns_def iloc_first_def
        iloc_last_def np_linspace_def linspace_vals_def df_getitem_def np_interp_def interp1_def
        circular_def np_mod_tiny_negative_numeral)

section \<open>Dispersion\<close>

lemma reals_of_Fin [simp]: "reals_of (map Fin rs) = Some rs"
  by (induction rs) simp_all

lemma np_reduce_Fin: "xs \<noteq> [] \<Longrightarrow> np_reduce f (map Fin xs) = Fin (f xs)"
  by (simp add: np_reduce_def)

lemma length_columns [simp]: "length (columns M ys) = M"
  by (simp add: columns_def)

lemma nth_columns [simp]: "k < M \<Longrightarrow> columns M ys ! k = column ys k"
  by (simp add: columns_def)

lemma column_Fin:
  assumes "\<forall>row\<in>set rs. length row = M" "k < M"
  shows "column (map (map Fin) rs) k = map Fin (map (\<lambda>row. row ! k) rs)"
  using assms by (simp add: column_def)

lemma sum_list_squares_nonneg: "0 \<le> (\<Sum>x\<leftarrow>rs. (f x :: real)\<^sup>2)"
  by (induction rs) simp_all

lemma std_real_population:
  assumes "rs \<noteq> []"
  shows "0 \<le> std_real rs"
    and "(std_real rs)\<^sup>2 = (\<Sum>x\<leftarrow>rs. (x - sum_list rs / real (length rs))\<^sup>2) / real (length rs)"
proof -
  have nn: "0 \<le> (\<Sum>x\<leftarrow>rs. (x - mean_real rs)\<^sup>2) / real (length rs)"
    using sum_list_squares_nonneg [of "\<lambda>x. x - mean_real rs" rs] by simp
  have eq: "mean_real (map (\<lambda>x. \<bar>x - mean_real rs\<bar>\<^sup>2) rs)
              = (\<Sum>x\<leftarrow>rs. (x - mean_real rs)\<^sup>2) / real (length rs)"
    by (simp add: mean_real_def)
  show "0 \<le> std_real rs" unfolding std_real_def eq using nn by simp
  have "(std_real rs)\<^sup>2 = (\<Sum>x\<leftarrow>rs. (x - mean_real rs)\<^sup>2) / real (length rs)"
    unfolding std_real_def eq using nn by (rule real_sqrt_pow2)
  then show "(std_real rs)\<^sup>2
       = (\<Sum>x\<leftarrow>rs. (x - sum_list rs / real (length rs))\<^sup>2) / real (length rs)"
    by (simp only: mean_real_def)
qed

lemma map2_same: "map2 f (map g xs) (map h xs) = map (\<lambda>x. f (g x) (h x)) xs"
  by (induction xs) simp_all

lemma pct_sigma_valid:
  assumes "- 100 \<le> L" "L \<le> 100" "ys \<noteq> []"
  shows "pct_sigma M ys L
           = Inr (map (\<lambda>c. np_half (np_sub (np_reduce (percentile_real (50 + L / 2)) c)
                                           (np_reduce (percentile_real (50 - L / 2)) c)))
                    (columns M ys))"
proof -
  have "0 \<le> 50 + L / 2 \<and> 50 + L / 2 \<le> 100" "0 \<le> 50 - L / 2 \<and> 50 - L / 2 \<le> 100"
    using assms by simp_all
  then show ?thesis
    using assms(3)
    by (simp only: pct_sigma_def np_percentile_def try_bind_Inr map2_same simp_thms if_True
          if_False not_True_eq_False)
qed

lemma pct_sigma_invalid:
  assumes "L < - 100 \<or> 100 < L"
  shows "pct_sigma M ys L = Inl (ValueError ''Percentiles must be in the range [0, 100]'')"
proof -
  have "\<not> (0 \<le> 50 + L / 2 \<and> 50 + L / 2 \<le> 100)" using assms by auto
  then show ?thesis by (simp add: pct_sigma_def np_percentile_def)
qed

lemma traverse_pct_invalid:
  "ys \<noteq> [] \<Longrightarrow> \<exists>L\<in>set ls. L < - 100 \<or> 100 < L \<Longrightarrow>
   traverse (pct_sigma M ys) ls = Inl (ValueError ''Percentiles must be in the range [0, 100]'')"
proof (induction ls)
  case Nil
  then show ?case by simp
next
  case (Cons x xs)
  show ?case
  proof (cases "x < - 100 \<or> 100 < x")
    case True
    then show ?thesis by (simp add: pct_sigma_invalid)
  next
    case False
    then have v: "- 100 \<le> x" "x \<le> 100" by simp_all
    from False Cons.prems have "\<exists>L\<in>set xs. L < - 100 \<or> 100 < L" by auto
    with Cons.prems(1)
    have "traverse (pct_sigma M ys) xs = Inl (ValueError ''Percentiles must be in the range [0, 100]'')"
      by (rule Cons.IH)
    then show ?thesis by (simp add: pct_sigma_valid [OF v Cons.prems(1)])
  qed
qed

lemma deviation_pct_invalid:
  assumes "ys \<noteq> []" "\<exists>L\<in>set lv. L < - 100 \<or> 100 < L"
  shows "deviation_measure ''pct'' lv M ys = Inl (ValueError ''Percentiles must be in the range [0, 100]'')"
proof -
  have "\<exists>L\<in>set (rev (sort lv)). L < - 100 \<or> 100 < L" using assms(2) by simp
  then show ?thesis using assms(1) by (simp add: deviation_measure_def traverse_pct_invalid)
qed

lemma route_deviation_rows:
  "route_deviation dm lv M rs
     = try_bind (deviation_measure dm lv M (map fst rs)) (\<lambda>sigma_lon.
       try_bind (deviation_measure dm lv M (map snd rs)) (\<lambda>sigma_lat.
         Inr (sigma_lon, sigma_lat)))"
  by (simp add: route_deviation_def deviation_measure_def Let_def)

lemma std_example:
  "deviation_measure ''std'' [1] 3 [[Fin 1, Fin 2, Fin 3], [Fin 3, Fin 4, Fin 5]]
     = Inr [[Fin 1, Fin 1, Fin 1]]"
  by (simp add: deviation_measure_def columns_def column_def np_std_def np_reduce_def
        std_real_def mean_real_def upt_rec)

lemma pct_example:
  "deviation_measure ''pct'' [50, 90] 3 [[Fin 1, Fin 2, Fin 3], [Fin 3, Fin 4, Fin 5]]
     = Inr [[Fin (9 / 10), Fin (9 / 10), Fin (9 / 10)], [Fin (1 / 2), Fin (1 / 2), Fin (1 / 2)]]"
  by (simp add: deviation_measure_def pct_sigma_def np_percentile_def columns_def column_def
        np_reduce_def percentile_real_def Let_def upt_rec)

text \<open>
  C5, as the code has it. For a stack of \<open>N \<ge> 1\<close> flights without NaN, with the levels
  taken in descending order: in mode \<open>std\<close> the dispersion of level \<open>L\<close> at column
  \<open>k\<close> is \<open>L\<close> times the population standard deviation \<open>s\<close> of the column
  (\<open>s \<ge> 0\<close> and \<open>s\<^sup>2\<close> is the mean squared distance from the column mean); in mode
  \<open>pct\<close>, when every level lies between \<open>-100\<close> and \<open>100\<close>, it is half the
  difference of the percentiles \<open>50 + L/2\<close> and \<open>50 - L/2\<close> of the column, a
  percentile being interpolated linearly between the neighbours of the index
  \<open>q / 100 * (N - 1)\<close> in the sorted column. A level outside that range makes numpy
  reject the percentile with a ValueError. The route plot applies the same measures to
  its \<open>lon\<close> rows and its \<open>lat\<close> rows. On the stack \<open>[[1,2,3],[3,4,5]]\<close>, mode
  \<open>std\<close> with level \<open>1\<close> gives \<open>[1,1,1]\<close>, and mode \<open>pct\<close> with the levels
  \<open>50\<close> and \<open>90\<close> gives \<open>0.9\<close> and \<open>0.5\<close> in every column.
\<close>

theorem C5_dispersion:
  assumes "rs \<noteq> []" "\<forall>row\<in>set rs. length row = M"
  shows "(\<exists>sig. deviation_measure ''std'' lv M (map (map Fin) rs) = Inr sig \<and> length sig = length lv \<and>
      (\<forall>i<length lv. length (sig ! i) = M \<and>
         (\<forall>k<M. \<exists>s. sig ! i ! k = Fin (rev (sort lv) ! i * s) \<and> 0 \<le> s
            \<and> s\<^sup>2 = (\<Sum>x\<leftarrow>map (\<lambda>row. row ! k) rs.
                       (x - sum_list (map (\<lambda>row. row ! k) rs) / real (length rs))\<^sup>2)
                    / real (length rs))))
   \<and> ((\<forall>L\<in>set lv. - 100 \<le> L \<and> L \<le> 100) \<longrightarrow>
      (\<exists>sig. deviation_measure ''pct'' lv M (map (map Fin) rs) = Inr sig \<and> length sig = length lv \<and>
         (\<forall>i<length lv. length (sig ! i) = M \<and>
            (\<forall>k<M. sig ! i ! k
               = Fin ((percentile_real (50 + rev (sort lv) ! i / 2) (map (\<lambda>row. row ! k) rs)
                       - percentile_real (50 - rev (sort lv) ! i / 2) (map (\<lambda>row. row ! k) rs))
                      / 2)))))
   \<and> percentile_real q xs
        = sort xs ! nat \<lfloor>q / 100 * real (length xs - 1)\<rfloor>
          + (sort xs ! min (nat \<lfloor>q / 100 * real (length xs - 1)\<rfloor> + 1) (length xs - 1)
             - sort xs ! nat \<lfloor>q / 100 * real (length xs - 1)\<rfloor>)
            * (q / 100 * real (length xs - 1) - real (nat \<lfloor>q / 100 * real (length xs - 1)\<rfloor>))
   \<and> ((\<exists>L\<in>set lv. L < - 100 \<or> 100 < L) \<longrightarrow>
      deviation_measure ''pct'' lv M (map (map Fin) rs)
        = Inl (ValueError ''Percentiles must be in the range [0, 100]''))
   \<and> route_deviation dm lv M routes
        = try_bind (deviation_measure dm lv M (map fst routes)) (\<lambda>sigma_lon.
          try_bind (deviation_measure dm lv M (map snd routes)) (\<lambda>sigma_lat.
            Inr (sigma_lon, sigma_lat)))
   \<and> deviation_measure ''std'' [1] 3 [[Fin 1, Fin 2, Fin 3], [Fin 3, Fin 4, Fin 5]]
        = Inr [[Fin 1, Fin 1, Fin 1]]
   \<and> deviation_measure ''pct'' [50, 90] 3 [[Fin 1, Fin 2, Fin 3], [Fin 3, Fin 4, Fin 5]]
        = Inr [[Fin (9 / 10), Fin (9 / 10), Fin (9 / 10)], [Fin (1 / 2), Fin (1 / 2), Fin (1 / 2)]]"
proof (intro conjI impI)
  let ?ys = "map (map Fin) rs"
  let ?sigmas = "rev (sort lv)"
  let ?col = "\<lambda>k. map (\<lambda>row. row ! k) rs"
  have ne: "?ys \<noteq> []" using assms(1) by simp
  have col: "column ?ys k = map Fin (?col k)" if "k < M" for k
    using assms(2) that by (rule column_Fin)
  have cne: "?col k \<noteq> []" for k using assms(1) by simp
  have std_el: "\<exists>s. map (\<lambda>sig. map (np_scale sig) (map np_std (columns M ?ys))) ?sigmas ! i ! k
                     = Fin (?sigmas ! i * s) \<and> 0 \<le> s
            \<and> s\<^sup>2 = (\<Sum>x\<leftarrow>?col k. (x - sum_list (?col k) / real (length rs))\<^sup>2) / real (length rs)"
    if "i < length lv" "k < M" for i k
  proof -
    have "np_std (column ?ys k) = Fin (std_real (?col k))"
      unfolding col [OF that(2)] np_std_def using cne by (rule np_reduce_Fin)
    then have "map (\<lambda>sig. map (np_scale sig) (map np_std (columns M ?ys))) ?sigmas ! i ! k
                 = Fin (?sigmas ! i * std_real (?col k))"
      using that by simp
    moreover have "0 \<le> std_real (?col k)" using cne by (rule std_real_population(1))
    moreover have "(std_real (?col k))\<^sup>2
        = (\<Sum>x\<leftarrow>?col k. (x - sum_list (?col k) / real (length rs))\<^sup>2) / real (length rs)"
      using std_real_population(2) [OF cne, of k] by simp
    ultimately show ?thesis by blast
  qed
  show "\<exists>sig. deviation_measure ''std'' lv M ?ys = Inr sig \<and> length sig = length lv \<and>
      (\<forall>i<length lv. length (sig ! i) = M \<and>
         (\<forall>k<M. \<exists>s. sig ! i ! k = Fin (?sigmas ! i * s) \<and> 0 \<le> s
            \<and> s\<^sup>2 = (\<Sum>x\<leftarrow>?col k. (x - sum_list (?col k) / real (length rs))\<^sup>2)
                    / real (length rs)))"
  proof (rule exI [of _ "map (\<lambda>sig. map (np_scale sig) (map np_std (columns M ?ys))) ?sigmas"],
         intro conjI allI impI)
    show "deviation_measure ''std'' lv M ?ys
            = Inr (map (\<lambda>sig. map (np_scale sig) (map np_std (columns M ?ys))) ?sigmas)"
      by (simp add: deviation_measure_def)
    show "length (map (\<lambda>sig. map (np_scale sig) (map np_std (columns M ?ys))) ?sigmas) = length lv"
      by simp
    show "length (map (\<lambda>sig. map (np_scale sig) (map np_std (columns M ?ys))) ?sigmas ! i) = M"
      if "i < length lv" for i using that by simp
    show "\<exists>s. map (\<lambda>sig. map (np_scale sig) (map np_std (columns M ?ys))) ?sigmas ! i ! k
                     = Fin (?sigmas ! i * s) \<and> 0 \<le> s
            \<and> s\<^sup>2 = (\<Sum>x\<leftarrow>?col k. (x - sum_list (?col k) / real (length rs))\<^sup>2) / real (length rs)"
      if "i < length lv" "k < M" for i k using that by (rule std_el)
  qed
next
  let ?ys = "map (map Fin) rs"
  let ?sigmas = "rev (sort lv)"
  let ?col = "\<lambda>k. map (\<lambda>row. row ! k) rs"
  assume a: "\<forall>L\<in>set lv. - 100 \<le> L \<and> L \<le> 100"
  let ?row = "\<lambda>L. map (\<lambda>c. np_half (np_sub (np_reduce (percentile_real (50 + L / 2)) c)
                                         (np_reduce (percentile_real (50 - L / 2)) c)))
                    (columns M ?ys)"
  have ne: "?ys \<noteq> []" using assms(1) by simp
  have col: "column ?ys k = map Fin (?col k)" if "k < M" for k
    using assms(2) that by (rule column_Fin)
  have cne: "?col k \<noteq> []" for k using assms(1) by simp
  have rng: "- 100 \<le> L \<and> L \<le> 100" if "L \<in> set ?sigmas" for L using a that by simp
  have tr: "traverse (pct_sigma M ?ys) ?sigmas = Inr (map ?row ?sigmas)"
  proof (rule traverse_total)
    fix L assume "L \<in> set ?sigmas"
    then have "- 100 \<le> L" "L \<le> 100" using rng by simp_all
    then show "pct_sigma M ?ys L = Inr (?row L)" using ne by (rule pct_sigma_valid)
  qed
  have dm: "deviation_measure ''pct'' lv M ?ys = Inr (map ?row ?sigmas)"
    by (simp add: deviation_measure_def tr del: map_map)
  have el: "map ?row ?sigmas ! i ! k
              = Fin ((percentile_real (50 + ?sigmas ! i / 2) (?col k)
                       - percentile_real (50 - ?sigmas ! i / 2) (?col k)) / 2)"
    if "i < length lv" "k < M" for i k
  proof -
    have "map ?row ?sigmas ! i ! k
            = np_half (np_sub (np_reduce (percentile_real (50 + ?sigmas ! i / 2)) (column ?ys k))
                              (np_reduce (percentile_real (50 - ?sigmas ! i / 2)) (column ?ys k)))"
      using that by simp
    also have "\<dots> = Fin ((percentile_real (50 + ?sigmas ! i / 2) (?col k)
                       - percentile_real (50 - ?sigmas ! i / 2) (?col k)) / 2)"
      unfolding col [OF that(2)] by (simp only: np_reduce_Fin [OF cne] np_sub.simps np_half.simps)
    finally show ?thesis .
  qed
  show "\<exists>sig. deviation_measure ''pct'' lv M ?ys = Inr sig \<and> length sig = length lv \<and>
         (\<forall>i<length lv. length (sig ! i) = M \<and>
            (\<forall>k<M. sig ! i ! k
               = Fin ((percentile_real (50 + ?sigmas ! i / 2) (?col k)
                       - percentile_real (50 - ?sigmas ! i / 2) (?col k)) / 2)))"
  proof (rule exI [of _ "map ?row ?sigmas"], intro conjI allI impI)
    show "deviation_measure ''pct'' lv M ?ys = Inr (map ?row ?sigmas)" by (rule dm)
    show "length (map ?row ?sigmas) = length lv" by simp
    show "length (map ?row ?sigmas ! i) = M" if "i < length lv" for i using that by simp
    show "map ?row ?sigmas ! i ! k
              = Fin ((percentile_real (50 + ?sigmas ! i / 2) (?col k)
                       - percentile_real (50 - ?sigmas ! i / 2) (?col k)) / 2)"
      if "i < length lv" "k < M" for i k using that by (rule el)
  qed
next
  show "percentile_real q xs
        = sort xs ! nat \<lfloor>q / 100 * real (length xs - 1)\<rfloor>
          + (sort xs ! min (nat \<lfloor>q / 100 * real (length xs - 1)\<rfloor> + 1) (length xs - 1)
             - sort xs ! nat \<lfloor>q / 100 * real (length xs - 1)\<rfloor>)
            * (q / 100 * real (length xs - 1) - real (nat \<lfloor>q / 100 * real (length xs - 1)\<rfloor>))"
    by (simp add: percentile_real_def Let_def)
next
  assume "\<exists>L\<in>set lv. L < - 100 \<or> 100 < L"
  moreover have "map (map Fin) rs \<noteq> []" using assms(1) by simp
  ultimately show "deviation_measure ''pct'' lv M (map (map Fin) rs)
        = Inl (ValueError ''Percentiles must be in the range [0, 100]'')"
    by (intro deviation_pct_invalid)
next
  show "route_deviation dm lv M routes
        = try_bind (deviation_measure dm lv M (map fst routes)) (\<lambda>sigma_lon.
          try_bind (deviation_measure dm lv M (map snd routes)) (\<lambda>sigma_lat.
            Inr (sigma_lon, sigma_lat)))"
    by (rule route_deviation_rows)
next
  show "deviation_measure ''std'' [1] 3 [[Fin 1, Fin 2, Fin 3], [Fin 3, Fin 4, Fin 5]]
        = Inr [[Fin 1, Fin 1, Fin 1]]"
    by (rule std_example)
next
  show "deviation_measure ''pct'' [50, 90] 3 [[Fin 1, Fin 2, Fin 3], [Fin 3, Fin 4, Fin 5]]
        = Inr [[Fin (9 / 10), Fin (9 / 10), Fin (9 / 10)], [Fin (1 / 2), Fin (1 / 2), Fin (1 / 2)]]"
    by (rule pct_example)
qed

theorem C5_dispersion_witness:
  "(\<exists>sig. deviation_measure ''pct'' [50, 90] 3 (map (map Fin) [[1, 2, 3], [3, 4, 5]]) = Inr sig
       \<and> length sig = 2)
   \<and> (\<exists>sig. deviation_measure ''std'' [2] 3 (map (map Fin) [[1, 2, 3], [3, 4, 5]]) = Inr sig
       \<and> length sig = 1)"
proof -
  let ?rs = "[[1, 2, 3], [3, 4, 5]] :: real list list"
  have h1: "?rs \<noteq> []" by simp
  have h2: "\<forall>row\<in>set ?rs. length row = 3" by simp
  have h3: "\<forall>L\<in>set [50, 90 :: real]. - 100 \<le> L \<and> L \<le> 100" by simp
  note inst = C5_dispersion [OF h1 h2, of "[50, 90]"]
  from inst [THEN conjunct2, THEN conjunct1, THEN mp, OF h3]
  obtain sig where "deviation_measure ''pct'' [50, 90] 3 (map (map Fin) ?rs) = Inr sig"
    "length sig = length [50, 90 :: real]"
    by (elim exE conjE)
  then have a: "\<exists>sig. deviation_measure ''pct'' [50, 90] 3 (map (map Fin) ?rs) = Inr sig \<and> length sig = 2"
    by (intro exI [of _ sig]) simp
  from C5_dispersion [OF h1 h2, of "[2]", THEN conjunct1]
  obtain sig2 where "deviation_measure ''std'' [2] 3 (map (map Fin) ?rs) = Inr sig2"
    "length sig2 = length [2 :: real]"
    by (elim exE conjE)
  then have b: "\<exists>sig. deviation_measure ''std'' [2] 3 (map (map Fin) ?rs) = Inr sig \<and> length sig = 1"
    by (intro exI [of _ sig2]) simp
  from a b show ?thesis by (rule conjI)
qed

text \<open>
  The claim fails for a level above \<open>100\<close> in mode \<open>pct\<close>, where \<open>50 + L/2\<close> is
  no percentile and numpy raises, and on a stack without flights, where
  \<open>np.percentile\<close> raises IndexError.
\<close>

theorem C5_dispersion_counterexample:
  "deviation_measure ''pct'' [300] 3 [[Fin 1, Fin 2, Fin 3], [Fin 3, Fin 4, Fin 5]]
     = Inl (ValueError ''Percentiles must be in the range [0, 100]'')
   \<and> deviation_measure ''pct'' [50] 3 [] = Inl IndexError"
  by (simp add: deviation_measure_def pct_sigma_def np_percentile_def)

section \<open>Confidence regions\<close>

lemma ellipse_at_ok:
  assumes "i < length mx" "length my = length mx" "length sx = length mx" "length sy = length mx"
  shows "ellipse_at mx my sx sy i
           = Inr (Scale (Buffer (mx ! i, my ! i) 1) (sx ! i) (sy ! i) (mx ! i, my ! i))"
  using assms by (simp add: ellipse_at_def np_getitem_def)

lemma points_of_ellipse:
  "points_of (Scale (Buffer (cx, cy) 1) sx sy (cx, cy))
     = {(cx + sx * u, cy + sy * v) | u v. u\<^sup>2 + v\<^sup>2 \<le> 1}"
proof (rule set_eqI)
  fix p :: point
  obtain x y where p: "p = (x, y)" by (cases p)
  show "p \<in> points_of (Scale (Buffer (cx, cy) 1) sx sy (cx, cy))
        \<longleftrightarrow> p \<in> {(cx + sx * u, cy + sy * v) | u v. u\<^sup>2 + v\<^sup>2 \<le> 1}"
  proof
    assume "p \<in> points_of (Scale (Buffer (cx, cy) 1) sx sy (cx, cy))"
    then obtain a b where ab: "(a - cx)\<^sup>2 + (b - cy)\<^sup>2 \<le> 1"
        "p = (cx + sx * (a - cx), cy + sy * (b - cy))"
      by auto
    then show "p \<in> {(cx + sx * u, cy + sy * v) | u v. u\<^sup>2 + v\<^sup>2 \<le> 1}"
      by blast
  next
    assume "p \<in> {(cx + sx * u, cy + sy * v) | u v. u\<^sup>2 + v\<^sup>2 \<le> 1}"
    then obtain u v where uv: "u\<^sup>2 + v\<^sup>2 \<le> 1" "p = (cx + sx * u, cy + sy * v)"
      by blast
    have "(cx + u, cy + v) \<in> points_of (Buffer (cx, cy) 1)" using uv(1) by simp
    moreover have "p = scale_point sx sy (cx, cy) (cx + u, cy + v)" using uv(2) by simp
    ultimately show "p \<in> points_of (Scale (Buffer (cx, cy) 1) sx sy (cx, cy))"
      by (simp only: points_of.simps image_eqI)
  qed
qed

lemma ellipse_equation:
  fixes sx sy :: real
  assumes "sx \<noteq> 0" "sy \<noteq> 0"
  shows "{(cx + sx * u, cy + sy * v) | u v. u\<^sup>2 + v\<^sup>2 \<le> 1}
           = {(x, y). ((x - cx) / sx)\<^sup>2 + ((y - cy) / sy)\<^sup>2 \<le> 1}"
proof (rule set_eqI)
  fix p :: point
  obtain x y where p: "p = (x, y)" by (cases p)
  show "p \<in> {(cx + sx * u, cy + sy * v) | u v. u\<^sup>2 + v\<^sup>2 \<le> 1}
        \<longleftrightarrow> p \<in> {(x, y). ((x - cx) / sx)\<^sup>2 + ((y - cy) / sy)\<^sup>2 \<le> 1}"
  proof
    assume "p \<in> {(cx + sx * u, cy + sy * v) | u v. u\<^sup>2 + v\<^sup>2 \<le> 1}"
    then obtain u v where uv: "u\<^sup>2 + v\<^sup>2 \<le> 1" "x = cx + sx * u" "y = cy + sy * v"
      using p by blast
    have "(x - cx) / sx = u" "(y - cy) / sy = v" using uv(2,3) assms by simp_all
    then show "p \<in> {(x, y). ((x - cx) / sx)\<^sup>2 + ((y - cy) / sy)\<^sup>2 \<le> 1}"
      using uv(1) p by simp
  next
    assume "p \<in> {(x, y). ((x - cx) / sx)\<^sup>2 + ((y - cy) / sy)\<^sup>2 \<le> 1}"
    then have le: "((x - cx) / sx)\<^sup>2 + ((y - cy) / sy)\<^sup>2 \<le> 1" using p by simp
    have "x = cx + sx * ((x - cx) / sx)" "y = cy + sy * ((y - cy) / sy)" using assms by simp_all
    then have "p = (cx + sx * ((x - cx) / sx), cy + sy * ((y - cy) / sy))" using p by simp
    with le show "p \<in> {(cx + sx * u, cy + sy * v) | u v. u\<^sup>2 + v\<^sup>2 \<le> 1}" by blast
  qed
qed

text \<open>
  C9. For parallel arrays of positions and deviations of equal length \<open>n\<close>, the
  builder returns the union of \<open>n\<close> geometries, the \<open>i\<close>-th being the unit disk
  around \<open>(x_i, y_i)\<close> scaled by \<open>(sx_i, sy_i)\<close> about \<open>(x_i, y_i)\<close>. The
  region it denotes is the union of the sets \<open>(x_i + sx_i u, y_i + sy_i v)\<close> with
  \<open>u\<^sup>2 + v\<^sup>2 \<le> 1\<close>; for nonzero deviations these are the ellipses
  \<open>((x - x_i) / sx_i)\<^sup>2 + ((y - y_i) / sy_i)\<^sup>2 \<le> 1\<close>. The union need not be connected
  (the witness has two ellipses and a point between them outside the region).
\<close>

theorem C9_confidence_region:
  assumes "length means_y = length means_x" "length sigma_x = length means_x"
      and "length sigma_y = length means_x"
  shows "\<exists>g. generate_confidence_region means_x means_y sigma_x sigma_y = Inr g
     \<and> g = UnaryUnion (map (\<lambda>i. Scale (Buffer (means_x ! i, means_y ! i) 1)
                                   (sigma_x ! i) (sigma_y ! i) (means_x ! i, means_y ! i))
                         [0..<length means_x])
     \<and> points_of g = (\<Union>i<length means_x.
           {(means_x ! i + sigma_x ! i * u, means_y ! i + sigma_y ! i * v) | u v. u\<^sup>2 + v\<^sup>2 \<le> 1})
     \<and> ((\<forall>i<length means_x. sigma_x ! i \<noteq> 0 \<and> sigma_y ! i \<noteq> 0) \<longrightarrow>
          points_of g = {(x, y). \<exists>i<length means_x.
             ((x - means_x ! i) / sigma_x ! i)\<^sup>2 + ((y - means_y ! i) / sigma_y ! i)\<^sup>2 \<le> 1})"
proof -
  let ?n = "length means_x"
  let ?e = "\<lambda>i. Scale (Buffer (means_x ! i, means_y ! i) 1)
                  (sigma_x ! i) (sigma_y ! i) (means_x ! i, means_y ! i)"
  let ?g = "UnaryUnion (map ?e [0..<?n])"
  let ?E = "\<lambda>i. {(means_x ! i + sigma_x ! i * u, means_y ! i + sigma_y ! i * v) | u v. u\<^sup>2 + v\<^sup>2 \<le> 1}"
  have tr: "traverse (ellipse_at means_x means_y sigma_x sigma_y) [0..<?n] = Inr (map ?e [0..<?n])"
    using assms by (intro traverse_total ellipse_at_ok) simp_all
  have gen: "generate_confidence_region means_x means_y sigma_x sigma_y = Inr ?g"
    by (simp add: generate_confidence_region_def tr)
  have pts: "points_of ?g = (\<Union>i<?n. ?E i)"
  proof -
    have "points_of ?g = (\<Union>i\<in>{0..<?n}. points_of (?e i))" by (simp add: image_image)
    also have "\<dots> = (\<Union>i\<in>{0..<?n}. ?E i)" by (simp only: points_of_ellipse)
    also have "{0..<?n} = {..<?n}" by (rule atLeast0LessThan)
    finally show ?thesis .
  qed
  have eqn: "points_of ?g = {(x, y). \<exists>i<?n.
             ((x - means_x ! i) / sigma_x ! i)\<^sup>2 + ((y - means_y ! i) / sigma_y ! i)\<^sup>2 \<le> 1}"
    if nz: "\<forall>i<?n. sigma_x ! i \<noteq> 0 \<and> sigma_y ! i \<noteq> 0"
  proof -
    have "(\<Union>i<?n. ?E i)
            = (\<Union>i<?n. {(x, y). ((x - means_x ! i) / sigma_x ! i)\<^sup>2 + ((y - means_y ! i) / sigma_y ! i)\<^sup>2 \<le> 1})"
      using nz by (intro SUP_cong refl ellipse_equation) simp_all
    also have "\<dots> = {(x, y). \<exists>i<?n.
             ((x - means_x ! i) / sigma_x ! i)\<^sup>2 + ((y - means_y ! i) / sigma_y ! i)\<^sup>2 \<le> 1}"
      by auto
    finally show ?thesis using pts by simp
  qed
  from gen pts eqn show ?thesis by blast
qed

theorem C9_confidence_region_witness:
  "\<exists>g. generate_confidence_region [0, 10] [0, 0] [2, 2] [1, 1] = Inr g
     \<and> (1, 0) \<in> points_of g \<and> (11, 0) \<in> points_of g \<and> (5, 0) \<notin> points_of g"
proof -
  have h1: "length [0, 0 :: real] = length [0, 10 :: real]" by simp
  have h2: "length [2, 2 :: real] = length [0, 10 :: real]" by simp
  have h3: "length [1, 1 :: real] = length [0, 10 :: real]" by simp
  have nz: "\<forall>i<length [0, 10 :: real]. [2, 2 :: real] ! i \<noteq> 0 \<and> [1, 1 :: real] ! i \<noteq> 0"
    by (simp add: less_Suc_eq)
  from C9_confidence_region [OF h1 h2 h3] obtain g where
    g: "generate_confidence_region [0, 10] [0, 0] [2, 2] [1, 1] = Inr g"
    and imp: "(\<forall>i<length [0, 10 :: real]. [2, 2 :: real] ! i \<noteq> 0 \<and> [1, 1 :: real] ! i \<noteq> 0) \<longrightarrow>
          points_of g = {(x, y). \<exists>i<length [0, 10 :: real].
             ((x - [0, 10] ! i) / [2, 2] ! i)\<^sup>2 + ((y - [0, 0] ! i) / [1, 1] ! i)\<^sup>2 \<le> 1}"
    by (elim exE conjE)
  from imp nz have pts: "points_of g = {(x, y). \<exists>i<length [0, 10 :: real].
             ((x - [0, 10] ! i) / [2, 2] ! i)\<^sup>2 + ((y - [0, 0] ! i) / [1, 1] ! i)\<^sup>2 \<le> 1}"
    by (rule mp)
  have a: "(1, 0) \<in> points_of g"
    unfolding pts by (auto intro!: exI [of _ 0] simp: power2_eq_square)
  have b: "(11, 0) \<in> points_of g"
    unfolding pts by (auto intro!: exI [of _ 1] simp: power2_eq_square)
  have ex2: "(\<exists>i<length [0, 10 :: real]. P i) \<longleftrightarrow> P 0 \<or> P (Suc 0)" for P
    by (auto simp: less_Suc_eq)
  have c: "(5, 0) \<notin> points_of g"
    unfolding pts ex2 by (simp add: power2_eq_square)
  from g a b c show ?thesis by (intro exI conjI)
qed

end
